theory Spec2Isabelle
  imports Main
begin

section \<open>JavaScript values that the scaffold script handles\<close>

text \<open>
  The defaults table of \<open>getPropDefaults\<close> holds booleans, a number and strings; the
  lookup \<open>propTypes[key] || null\<close> adds \<open>null\<close>. A lookup on an object literal also
  sees the members inherited from \<open>Object.prototype\<close>; they are kept apart as
  \<open>JInherited\<close>.
\<close>

datatype jsval = JNull | JBool bool | JNum int | JStr string | JInherited string

text \<open>Truthiness, as \<open>||\<close> and the conditional operator test it.\<close>

fun truthy :: "jsval \<Rightarrow> bool" where
  "truthy JNull = False"
| "truthy (JBool b) = b"
| "truthy (JNum n) = (n \<noteq> 0)"
| "truthy (JStr s) = (s \<noteq> [])"
| "truthy (JInherited k) = True"

definition digit :: "nat \<Rightarrow> char" where
  "digit n = char_of (48 + n)"

function showNat :: "nat \<Rightarrow> string" where
  "showNat n = (if n < 10 then [digit n] else showNat (n div 10) @ [digit (n mod 10)])"
  by pat_completeness auto
termination
  by (relation "measure (\<lambda>n. n)") auto

declare showNat.simps [simp del]

definition showInt :: "int \<Rightarrow> string" where
  "showInt i = (if i < 0 then ''-'' @ showNat (nat (- i)) else showNat (nat i))"

text \<open>
  The text a value contributes to a template literal \<open>`${v}`\<close>. The inherited members
  are native functions, except \<open>__proto__\<close>, which is the prototype object itself.
\<close>

fun toStr :: "jsval \<Rightarrow> string" where
  "toStr JNull = ''null''"
| "toStr (JBool b) = (if b then ''true'' else ''false'')"
| "toStr (JNum n) = showInt n"
| "toStr (JStr s) = s"
| "toStr (JInherited k) =
     (if k = ''__proto__'' then ''[object Object]''
      else ''function '' @ (if k = ''constructor'' then ''Object'' else k) @ ''() { [native code] }'')"

text \<open>\<open>Array.prototype.join\<close> on an array of strings.\<close>

fun join :: "string \<Rightarrow> string list \<Rightarrow> string" where
  "join sep [] = []"
| "join sep [x] = x"
| "join sep (x # y # ys) = x @ sep @ join sep (y # ys)"

definition newline :: char where
  "newline = CHR 0x0A"

section \<open>The regular expressions of the script\<close>

text \<open>
  In a JavaScript regular expression without flags \<open>.\<close> matches any character except a
  line terminator. Strings are modelled as lists of 8-bit characters, where the line
  terminators are line feed and carriage return.
\<close>

definition isLineTerminator :: "char \<Rightarrow> bool" where
  "isLineTerminator c = (c = CHR 0x0A \<or> c = CHR 0x0D)"

text \<open>\<open>/PropTypes./\<close> matched at the start of a string.\<close>

definition matchPropTypesDot :: "string \<Rightarrow> bool" where
  "matchPropTypesDot s =
     (take 9 s = ''PropTypes'' \<and> (case drop 9 s of [] \<Rightarrow> False | c # _ \<Rightarrow> \<not> isLineTerminator c))"

text \<open>\<open>s.replace(/PropTypes./, '')\<close>: the leftmost match is removed, once.\<close>

fun replacePropTypesDot :: "string \<Rightarrow> string" where
  "replacePropTypesDot [] = []"
| "replacePropTypesDot (c # cs) =
     (if matchPropTypesDot (c # cs) then drop 10 (c # cs) else c # replacePropTypesDot cs)"

text \<open>\<open>/.isRequired/\<close> matched at the start of a string.\<close>

definition matchDotIsRequired :: "string \<Rightarrow> bool" where
  "matchDotIsRequired s =
     (case s of [] \<Rightarrow> False | c # cs \<Rightarrow> \<not> isLineTerminator c \<and> take 10 cs = ''isRequired'')"

text \<open>\<open>s.replace(/.isRequired/, '')\<close> and \<open>/.isRequired/.test(s)\<close>.\<close>

fun replaceDotIsRequired :: "string \<Rightarrow> string" where
  "replaceDotIsRequired [] = []"
| "replaceDotIsRequired (c # cs) =
     (if matchDotIsRequired (c # cs) then drop 11 (c # cs) else c # replaceDotIsRequired cs)"

fun testDotIsRequired :: "string \<Rightarrow> bool" where
  "testDotIsRequired [] = False"
| "testDotIsRequired (c # cs) = (matchDotIsRequired (c # cs) \<or> testDotIsRequired cs)"

text \<open>
  \<open>s.replace(/([^/]*)/g, () => '.')\<close>. The global replace looks for a match at the
  current index. A run of characters other than \<open>/\<close> is one match; the search resumes
  right after it, where the expression matches the empty string. After an empty match
  the character at the index (a \<open>/\<close>, when there is one) is copied and the index moves
  one further; an empty match at the end of the string is the last one.
\<close>

function replaceSegments :: "string \<Rightarrow> string" where
  "replaceSegments s =
     (let run = takeWhile (\<lambda>c. c \<noteq> CHR ''/'') s; rest = dropWhile (\<lambda>c. c \<noteq> CHR ''/'') s
      in if run \<noteq> [] then ''.'' @ replaceSegments rest
         else ''.'' @ (case s of [] \<Rightarrow> [] | c # cs \<Rightarrow> c # replaceSegments cs))"
  by pat_completeness auto
termination
proof (relation "measure length")
  show "wf (measure length)" by simp
next
  fix s :: string and run rest
  assume run: "run = takeWhile (\<lambda>c. c \<noteq> CHR ''/'') s"
    and rest: "rest = dropWhile (\<lambda>c. c \<noteq> CHR ''/'') s"
    and ne: "run \<noteq> []"
  have "length run + length rest = length s"
    unfolding run rest by (metis length_append takeWhile_dropWhile_id)
  moreover have "0 < length run" using ne by simp
  ultimately have "length rest < length s" by linarith
  then show "(rest, s) \<in> measure length" by simp
next
  fix s :: string and run rest c cs
  assume "s = c # cs"
  then show "(cs, s) \<in> measure length" by simp
qed

declare replaceSegments.simps [simp del]

text \<open>The component name: \<open>name.replace(/^[a-z]/, ...).replace(/_([a-z])/g, ...)\<close>.\<close>

definition isLower :: "char \<Rightarrow> bool" where
  "isLower c = (97 \<le> (of_char c :: nat) \<and> (of_char c :: nat) \<le> 122)"

definition toUpperCase :: "char \<Rightarrow> char" where
  "toUpperCase c = (if isLower c then char_of ((of_char c :: nat) - 32) else c)"

definition upperFirst :: "string \<Rightarrow> string" where
  "upperFirst s = (case s of [] \<Rightarrow> [] | c # cs \<Rightarrow> (if isLower c then toUpperCase c # cs else c # cs))"

fun camelCase :: "string \<Rightarrow> string" where
  "camelCase (a # b # cs) =
     (if a = CHR ''_'' \<and> isLower b then toUpperCase b # camelCase cs else a # camelCase (b # cs))"
| "camelCase cs = cs"

section \<open>Settle-once promises and failures\<close>

text \<open>
  A rejection carries the string the script passes to \<open>reject\<close>, a \<open>TypeError\<close> thrown
  where the script reads a member of \<open>undefined\<close>, or an error of the file system or of
  the parser.
\<close>

datatype failure = Reason string | TypeError string | External string

fun failureText :: "failure \<Rightarrow> string" where
  "failureText (Reason s) = s"
| "failureText (TypeError s) = ''TypeError: '' @ s"
| "failureText (External s) = s"

datatype ('e, 'a) promise = Pending | Fulfilled 'a | Rejected 'e

text \<open>Only the first call of \<open>resolve\<close> or \<open>reject\<close> settles a promise.\<close>

definition resolve :: "'a \<Rightarrow> ('e, 'a) promise \<Rightarrow> ('e, 'a) promise" where
  "resolve v p = (case p of Pending \<Rightarrow> Fulfilled v | _ \<Rightarrow> p)"

definition reject :: "'e \<Rightarrow> ('e, 'a) promise \<Rightarrow> ('e, 'a) promise" where
  "reject e p = (case p of Pending \<Rightarrow> Rejected e | _ \<Rightarrow> p)"

section \<open>The component description and the pipeline record\<close>

text \<open>
  What the parser reports for one property: \<open>flowType\<close> (with the names of the
  alternatives of a union), \<open>type\<close> and \<open>required\<close>. Each may be missing.
\<close>

record flowTypeDescriptor =
  ft_name :: string
  ft_elements :: "string list"

datatype typeDescriptor = TypeAbsent | TypeNoRaw | TypeRaw string

record propDescriptor =
  pd_flowType :: "flowTypeDescriptor option"
  pd_type :: typeDescriptor
  pd_required :: "bool option"

text \<open>\<open>props\<close> in the iteration order of \<open>for ... in\<close>; \<open>None\<close> when the key is missing.\<close>

record componentInfo =
  props :: "(string \<times> propDescriptor) list option"

record classifiedProp =
  name :: string
  required :: "bool option"
  defaultValue :: jsval
  message :: string

record data =
  componentName :: string
  componentFilePath :: string
  componentFilePathName :: string
  testDirectory :: string
  testCasesFile :: string
  testFile :: string
  component :: "componentInfo option"
  wrapped :: bool
  classifiedProps :: "classifiedProp list"
  testCasesContent :: "string list"
  requiredProps :: "classifiedProp list"
  optionalProps :: "classifiedProp list"
  testContent :: "string list"

section \<open>getPropDefaults\<close>

definition quotes :: string where
  "quotes = [CHR 0x27, CHR 0x27]"

definition propTypes :: "(string \<times> jsval) list" where
  "propTypes =
     [(''any'', JStr quotes),
      (''boolean'', JBool True),
      (''bool'', JBool True),
      (''Function'', JStr ''safeSpy()''),
      (''func'', JStr ''safeSpy()''),
      (''immutable.list'', JStr ''Immutable.List()''),
      (''immutable.map'', JStr ''Immutable.Map()''),
      (''number'', JNum 0),
      (''string'', JStr quotes),
      (''union'', JStr quotes),
      (''unknown'', JStr ''Immutable.fromJS()'')]"

definition objectPrototypeKeys :: "string list" where
  "objectPrototypeKeys =
     [''constructor'', ''__defineGetter__'', ''__defineSetter__'', ''hasOwnProperty'',
      ''__lookupGetter__'', ''__lookupSetter__'', ''isPrototypeOf'', ''propertyIsEnumerable'',
      ''toString'', ''valueOf'', ''__proto__'', ''toLocaleString'']"

text \<open>\<open>obj[key]\<close> on an object literal; \<open>None\<close> is \<open>undefined\<close>.\<close>

definition getProperty :: "(string \<times> jsval) list \<Rightarrow> string \<Rightarrow> jsval option" where
  "getProperty obj k =
     (case map_of obj k of
        Some v \<Rightarrow> Some v
      | None \<Rightarrow> (if k \<in> set objectPrototypeKeys then Some (JInherited k) else None))"

text \<open>\<open>v || null\<close>.\<close>

definition orNull :: "jsval option \<Rightarrow> jsval" where
  "orNull v = (case v of None \<Rightarrow> JNull | Some x \<Rightarrow> (if truthy x then x else JNull))"

text \<open>
  Lines 119 to 140: the type name, \<open>required\<close> and \<open>message\<close> as they stand before the
  table lookup.
\<close>

definition deduceType :: "propDescriptor \<Rightarrow> failure + (string \<times> bool option \<times> string)" where
  "deduceType v =
     (case pd_flowType v of
        Some ft \<Rightarrow>
          (if ft_name ft = ''union'' then
             (case ft_elements ft of
                [] \<Rightarrow> Inl (TypeError ''Cannot read properties of undefined (reading 'name')'')
              | e # _ \<Rightarrow> Inr (e, pd_required v, ''''))
           else Inr (ft_name ft, pd_required v, ''''))
      | None \<Rightarrow>
          (case pd_type v of
             TypeAbsent \<Rightarrow> Inl (TypeError ''Cannot read properties of undefined (reading 'raw')'')
           | TypeNoRaw \<Rightarrow> Inr (''any'', None, ''Could not deduce prop type'')
           | TypeRaw raw \<Rightarrow>
               (if raw \<noteq> [] then
                  Inr (replaceDotIsRequired (replacePropTypesDot raw), Some (testDotIsRequired raw), '''')
                else Inr (''any'', None, ''Could not deduce prop type''))))"

definition classifyProp :: "string \<times> propDescriptor \<Rightarrow> failure + classifiedProp" where
  "classifyProp nv =
     (case deduceType (snd nv) of
        Inl e \<Rightarrow> Inl e
      | Inr (t, r, m) \<Rightarrow>
          Inr \<lparr>name = fst nv, required = r, defaultValue = orNull (getProperty propTypes t), message = m\<rparr>)"

fun classifyAll :: "(string \<times> propDescriptor) list \<Rightarrow> classifiedProp list \<Rightarrow> failure + classifiedProp list" where
  "classifyAll [] acc = Inr acc"
| "classifyAll (p # ps) acc =
     (case classifyProp p of Inl e \<Rightarrow> Inl e | Inr c \<Rightarrow> classifyAll ps (acc @ [c]))"

definition getPropDefaults :: "data \<Rightarrow> (failure, data) promise" where
  "getPropDefaults d =
     (case component d of
        None \<Rightarrow> Rejected (TypeError ''Cannot read properties of undefined (reading 'props')'')
      | Some c \<Rightarrow>
          (case classifyAll (case props c of None \<Rightarrow> [] | Some ps \<Rightarrow> ps) [] of
             Inl e \<Rightarrow> Rejected e
           | Inr cs \<Rightarrow> Fulfilled (d\<lparr>classifiedProps := cs\<rparr>)))"

section \<open>generateTestCasesContent\<close>

definition apos :: string where
  "apos = [CHR 0x27]"

text \<open>\<open>data.testCasesContent.push(line)\<close>.\<close>

definition pushCase :: "string \<Rightarrow> data \<Rightarrow> data" where
  "pushCase l d = d\<lparr>testCasesContent := testCasesContent d @ [l]\<rparr>"

text \<open>The test \<open>p => p.required\<close> of the two filters: \<open>undefined\<close> counts as false.\<close>

definition isRequired :: "classifiedProp \<Rightarrow> bool" where
  "isRequired p = (required p = Some True)"

text \<open>
  The body of the \<open>forEach\<close> in \<open>requiredPropsFormatted\<close>. The comment is the fixed
  text of line 168, which does not interpolate \<open>prop.message\<close>.
\<close>

definition requiredPropLine :: "bool \<Rightarrow> nat \<times> classifiedProp \<Rightarrow> data \<Rightarrow> data" where
  "requiredPropLine excludeLastComma ip d =
     (let i = fst ip; prop = snd ip;
          punctuation =
            (if excludeLastComma \<and> int i = int (length (requiredProps d)) - 1 then '''' else '','');
          comment = (if message prop \<noteq> [] then '' // message'' else '''')
      in pushCase (''    '' @ name prop @ '': '' @ toStr (defaultValue prop) @ punctuation @ comment) d)"

definition requiredPropsFormatted :: "bool \<Rightarrow> data \<Rightarrow> data" where
  "requiredPropsFormatted excludeLastComma d =
     fold (requiredPropLine excludeLastComma) (enumerate 0 (requiredProps d)) d"

text \<open>\<open>basePropsFormatted\<close>, for a component \<open>c\<close> that is \<open>data.component\<close>.\<close>

definition basePropsFormatted :: "componentInfo \<Rightarrow> data \<Rightarrow> data" where
  "basePropsFormatted c d =
     (if props c = None then
        pushCase ''  props: {} // could not find prop type declarations'' d
      else if requiredProps d = [] then
        pushCase ''  props: {} // could not find required props'' d
      else
        pushCase ''  }'' (requiredPropsFormatted True (pushCase ''  props: {'' d)))"

text \<open>The body of \<open>data.optionalProps.forEach\<close>, lines 210 to 225.\<close>

definition optionalPropFormatted :: "string \<Rightarrow> classifiedProp \<Rightarrow> data \<Rightarrow> data" where
  "optionalPropFormatted wr optionalProp d =
     (let comment = (if message optionalProp \<noteq> [] then '' // '' @ message optionalProp else '''');
          d = pushCase (''export const '' @ name optionalProp @ '' = {'') d;
          d = pushCase (''  description: '' @ apos @ name optionalProp @ '' optional prop','') d;
          d = pushCase (''  component: '' @ componentName d @ wr @ '','') d;
          d = pushCase ''  props: {'' d;
          d = requiredPropsFormatted False d;
          d = pushCase (''    '' @ name optionalProp @ '': '' @ toStr (defaultValue optionalProp) @ comment) d;
          d = pushCase ''  }'' d;
          d = pushCase ''};'' d
      in pushCase '''' d)"

text \<open>
  \<open>generateTestCasesContent\<close>. Reading \<open>data.component.props\<close> in
  \<open>basePropsFormatted\<close> throws when \<open>data.component\<close> is undefined, which rejects the
  promise.
\<close>

definition generateTestCasesContent :: "data \<Rightarrow> (failure, data) promise" where
  "generateTestCasesContent d0 =
     (case component d0 of
        None \<Rightarrow> Rejected (TypeError ''Cannot read properties of undefined (reading 'props')'')
      | Some c \<Rightarrow>
          (let safeSpyPrefix = replaceSegments (testDirectory d0);
               d = d0\<lparr>testCasesContent := []\<rparr>;
               d = d\<lparr>requiredProps := filter isRequired (classifiedProps d)\<rparr>;
               d = d\<lparr>optionalProps := filter (\<lambda>p. \<not> isRequired p) (classifiedProps d)\<rparr>;
               wr = (if wrapped d then ''.WrappedComponent'' else '''');
               d = pushCase ''import Immutable from 'immutable';'' d;
               d = pushCase (''import safeSpy from '' @ apos @ safeSpyPrefix @ ''/test/safe_spy';'') d;
               d = pushCase (''import { '' @ componentName d @ '' } from '../'' @ componentFilePathName d @ apos) d;
               d = pushCase '''' d;
               d = pushCase ''export const base = {'' d;
               d = pushCase ''  description: 'base','' d;
               d = pushCase (''  component: '' @ componentName d @ wr @ '','') d;
               d = basePropsFormatted c d;
               d = pushCase ''}'' d;
               d = pushCase '''' d;
               d = fold (optionalPropFormatted wr) (optionalProps d) d
           in Fulfilled d))"

section \<open>generateTestContent\<close>

definition pushTest :: "string \<Rightarrow> data \<Rightarrow> data" where
  "pushTest l d = d\<lparr>testContent := testContent d @ [l]\<rparr>"

text \<open>The body of \<open>testCaseNames.forEach\<close>, for \<open>n = testCaseNames.length\<close>.\<close>

definition testCaseFormatted :: "nat \<Rightarrow> nat \<times> string \<Rightarrow> data \<Rightarrow> data" where
  "testCaseFormatted n inm d =
     (let i = fst inm; nm = snd inm;
          d = pushTest (''  describe(testCases.'' @ nm @ ''.description, () => {'') d;
          d = pushTest ''    beforeEach(() => {'' d;
          d = pushTest (''      testCase = testCases.'' @ nm @ '';'') d;
          d = pushTest ''      wrapper = shallow(React.createElement(testCase.component, testCase.props));'' d;
          d = pushTest ''    });'' d;
          d = pushTest '''' d;
          d = pushTest ''    it('renders', () => {'' d;
          d = pushTest ''      expect(toJson(wrapper)).toMatchSnapshot();'' d;
          d = pushTest ''    });'' d;
          d = pushTest ''  });'' d
      in if int i \<noteq> int n - 1 then pushTest '''' d else d)"

definition generateTestContent :: "data \<Rightarrow> (failure, data) promise" where
  "generateTestContent d0 =
     (let d = d0\<lparr>testContent := []\<rparr>;
          testCaseNames = ''base'' # map name (optionalProps d);
          d = pushTest ''import React from 'react';'' d;
          d = pushTest ''import { shallow } from 'enzyme';'' d;
          d = pushTest ''import toJson from 'enzyme-to-json';'' d;
          d = pushTest (''import * as testCases from './'' @ componentFilePathName d @ ''.test_cases';'') d;
          d = pushTest '''' d;
          d = pushTest (''describe('<'' @ componentName d @ ''>', () => {'') d;
          d = pushTest ''  let testCase;'' d;
          d = pushTest ''  let wrapper;'' d;
          d = pushTest '''' d;
          d = fold (testCaseFormatted (length testCaseNames)) (enumerate 0 testCaseNames) d;
          d = pushTest ''});'' d;
          d = pushTest '''' d
      in Fulfilled d)"

section \<open>The file system, the parser and the pipeline\<close>

text \<open>
  What a run reads from outside: the command-line argument, \<open>path.parse\<close> (its \<open>dir\<close>
  and \<open>name\<close>), the file contents, the two calls of the parser (without a resolver, and
  with the resolver that finds all component definitions) and the state of the test
  directory (\<open>mkdir\<close> gives the error passed to its callback, if any).
\<close>

record env =
  argv2 :: "string option"
  pathParse :: "string \<Rightarrow> string \<times> string"
  readFileSync :: "string \<Rightarrow> failure + string"
  parse :: "string \<Rightarrow> failure + componentInfo"
  parseAll :: "string \<Rightarrow> failure + componentInfo list"
  existsSync :: "string \<Rightarrow> bool"
  mkdir :: "string \<Rightarrow> failure option"

text \<open>What a run leaves behind: directories created, file contents written, console lines.\<close>

record world =
  dirs :: "string list"
  files :: "(string \<times> string) list"
  console :: "string list"

definition getFileAndComponentName :: "env \<Rightarrow> (failure, data) promise" where
  "getFileAndComponentName e =
     (case argv2 e of
        None \<Rightarrow> Rejected (Reason ''Filepath argument is required!'')
      | Some filepath \<Rightarrow>
          (if filepath = [] then Rejected (Reason ''Filepath argument is required!'')
           else
             (let dir = fst (pathParse e filepath); nm = snd (pathParse e filepath);
                  cn = camelCase (upperFirst nm);
                  td = dir @ ''/__tests__''
              in Fulfilled
                   \<lparr>componentName = cn,
                    componentFilePath = filepath,
                    componentFilePathName = nm,
                    testDirectory = td,
                    testCasesFile = td @ ''/'' @ nm @ ''.test_cases.js'',
                    testFile = td @ ''/'' @ nm @ ''.test.js'',
                    component = None,
                    wrapped = False,
                    classifiedProps = [],
                    testCasesContent = [],
                    requiredProps = [],
                    optionalProps = [],
                    testContent = []\<rparr>)))"

definition multipleDefinitions :: string where
  "multipleDefinitions =
     ''Found more than one component definitions, could not automatically generate tests.''"

definition analysisFailed :: string where
  "analysisFailed =
     ''Failed to analyze component definition, could not automatically generate tests.''"

text \<open>
  \<open>getComponentInfo\<close>. In the callback of the second parse the promise is first
  rejected when there is more than one definition, and the callback goes on to
  \<open>resolve(data)\<close>; \<open>res[0]\<close> of an empty array is \<open>undefined\<close>.
\<close>

definition getComponentInfo :: "env \<Rightarrow> data \<Rightarrow> (failure, data) promise" where
  "getComponentInfo e d =
     (case readFileSync e (componentFilePath d) of
        Inl err \<Rightarrow> Rejected err
      | Inr componentContent \<Rightarrow>
          (case parse e componentContent of
             Inr res \<Rightarrow> resolve (d\<lparr>component := Some res\<rparr>) Pending
           | Inl _ \<Rightarrow>
               (case parseAll e componentContent of
                  Inr res \<Rightarrow>
                    (let p = (if length res > 1 then reject (Reason multipleDefinitions) Pending
                              else Pending);
                         d = d\<lparr>component := (case res of [] \<Rightarrow> None | c # _ \<Rightarrow> Some c)\<rparr>;
                         d = d\<lparr>wrapped := True\<rparr>
                     in resolve d p)
                | Inl _ \<Rightarrow> reject (Reason analysisFailed) Pending)))"

text \<open>
  \<open>createTestsDir\<close>: \<open>resolve\<close> when the directory exists, then \<open>fs.mkdir\<close> in any case,
  whose callback rejects on an error and then resolves.
\<close>

definition createTestsDir :: "env \<Rightarrow> data \<Rightarrow> world \<Rightarrow> (failure, data) promise \<times> world" where
  "createTestsDir e d w =
     (let p = (if existsSync e (testDirectory d) then resolve d Pending else Pending);
          err = mkdir e (testDirectory d);
          w = (case err of None \<Rightarrow> w\<lparr>dirs := dirs w @ [testDirectory d]\<rparr> | Some _ \<Rightarrow> w);
          p = (case err of Some x \<Rightarrow> reject x p | None \<Rightarrow> p);
          p = resolve d p
      in (p, w))"

definition createTestFiles :: "data \<Rightarrow> world \<Rightarrow> (failure, data) promise \<times> world" where
  "createTestFiles d w =
     (let w = w\<lparr>files := files w @ [(testCasesFile d, join [newline] (testCasesContent d))]\<rparr>;
          w = w\<lparr>files := files w @ [(testFile d, join [newline] (testContent d))]\<rparr>
      in (resolve d Pending, w))"

definition formatMessage :: "string \<Rightarrow> world \<Rightarrow> world" where
  "formatMessage msg w = w\<lparr>console := console w @ [[newline] @ msg @ [newline]]\<rparr>"

definition printMessage :: "data \<Rightarrow> world \<Rightarrow> world" where
  "printMessage d w =
     formatMessage
       (join [newline]
          [''Successfully created the following test files for '' @ componentName d @ '':'',
           ''  * '' @ testCasesFile d,
           ''  * '' @ testFile d]) w"

text \<open>\<open>.then\<close> with a stage that may change the world, and with one that does not.\<close>

definition thenW ::
  "('e, 'a) promise \<times> world \<Rightarrow> ('a \<Rightarrow> world \<Rightarrow> ('e, 'b) promise \<times> world) \<Rightarrow> ('e, 'b) promise \<times> world" where
  "thenW pw f =
     (case fst pw of
        Fulfilled v \<Rightarrow> f v (snd pw)
      | Rejected x \<Rightarrow> (Rejected x, snd pw)
      | Pending \<Rightarrow> (Pending, snd pw))"

definition thenP ::
  "('e, 'a) promise \<times> world \<Rightarrow> ('a \<Rightarrow> ('e, 'b) promise) \<Rightarrow> ('e, 'b) promise \<times> world" where
  "thenP pw f = thenW pw (\<lambda>v w. (f v, w))"

text \<open>Lines 7 to 15: the chain, ending in \<open>printMessage\<close> or in the \<open>catch\<close>.\<close>

definition stages :: "env \<Rightarrow> world \<Rightarrow> (failure, data) promise \<times> world" where
  "stages e w =
     thenW (thenW (thenP (thenP (thenP (thenP (getFileAndComponentName e, w)
       (getComponentInfo e))
       getPropDefaults)
       generateTestCasesContent)
       generateTestContent)
       (createTestsDir e))
       createTestFiles"

definition run :: "env \<Rightarrow> world \<Rightarrow> world" where
  "run e w =
     (case fst (stages e w) of
        Fulfilled d \<Rightarrow> printMessage d (snd (stages e w))
      | Rejected x \<Rightarrow> formatMessage (failureText x) (snd (stages e w))
      | Pending \<Rightarrow> snd (stages e w))"

section \<open>Reading the emitted lines\<close>

text \<open>
  A property's line without punctuation and comment, \<open>name: classifiedValue\<close> at the
  indentation of a props block, and the trailing comment that carries a diagnostic.
\<close>

definition propLine :: "classifiedProp \<Rightarrow> string" where
  "propLine p = ''    '' @ name p @ '': '' @ toStr (defaultValue p)"


text \<open>
  The scenarios of a fixture module: each line that starts with \<open>export const\<close> opens
  one, which runs up to the next such line.
\<close>

definition isExport :: "string \<Rightarrow> bool" where
  "isExport l = (take 13 l = ''export const '')"

fun scenarios :: "string list \<Rightarrow> string list list" where
  "scenarios [] = []"
| "scenarios (l # ls) =
     (if isExport l then (l # takeWhile (\<lambda>x. \<not> isExport x) ls) # scenarios ls else scenarios ls)"

text \<open>The lines of a scenario between \<open>props: {\<close> and the closing brace of the block.\<close>

definition propsBlock :: "string list \<Rightarrow> string list" where
  "propsBlock b = takeWhile (\<lambda>l. l \<noteq> ''  }'') (drop 1 (dropWhile (\<lambda>l. l \<noteq> ''  props: {'') b))"

text \<open>The segments of a path, as \<open>split('/')\<close> gives them.\<close>

fun splitSlash :: "string \<Rightarrow> string list" where
  "splitSlash [] = [[]]"
| "splitSlash (c # cs) =
     (if c = CHR ''/'' then [] # splitSlash cs
      else (case splitSlash cs of [] \<Rightarrow> [[c]] | x # xs \<Rightarrow> (c # x) # xs))"

section \<open>Closed forms of the emitters\<close>

text \<open>The text pushed by one step of \<open>requiredPropsFormatted\<close>, for \<open>n\<close> required props.\<close>

definition requiredLineText :: "bool \<Rightarrow> nat \<Rightarrow> nat \<times> classifiedProp \<Rightarrow> string" where
  "requiredLineText excludeLastComma n ip =
     ''    '' @ name (snd ip) @ '': '' @ toStr (defaultValue (snd ip))
       @ (if excludeLastComma \<and> int (fst ip) = int n - 1 then '''' else '','')
       @ (if message (snd ip) \<noteq> [] then '' // message'' else '''')"

definition requiredLines :: "bool \<Rightarrow> classifiedProp list \<Rightarrow> string list" where
  "requiredLines excludeLastComma rs = map (requiredLineText excludeLastComma (length rs)) (enumerate 0 rs)"

text \<open>The lines pushed for one optional prop.\<close>

definition optionalBlock :: "string \<Rightarrow> string \<Rightarrow> classifiedProp list \<Rightarrow> classifiedProp \<Rightarrow> string list" where
  "optionalBlock cn wr rs p =
     [''export const '' @ name p @ '' = {'',
      ''  description: '' @ apos @ name p @ '' optional prop','',
      ''  component: '' @ cn @ wr @ '','',
      ''  props: {'']
     @ requiredLines False rs
     @ [''    '' @ name p @ '': '' @ toStr (defaultValue p)
          @ (if message p \<noteq> [] then '' // '' @ message p else ''''),
        ''  }'', ''};'', '''']"

text \<open>The lines pushed by \<open>basePropsFormatted\<close>.\<close>

definition baseProps :: "componentInfo \<Rightarrow> classifiedProp list \<Rightarrow> string list" where
  "baseProps c rs =
     (if props c = None then [''  props: {} // could not find prop type declarations'']
      else if rs = [] then [''  props: {} // could not find required props'']
      else [''  props: {''] @ requiredLines True rs @ [''  }''])"

definition importLines :: "data \<Rightarrow> string list" where
  "importLines d =
     [''import Immutable from 'immutable';'',
      ''import safeSpy from '' @ apos @ replaceSegments (testDirectory d) @ ''/test/safe_spy';'',
      ''import { '' @ componentName d @ '' } from '../'' @ componentFilePathName d @ apos,
      '''']"

definition wrappedSuffix :: "data \<Rightarrow> string" where
  "wrappedSuffix d = (if wrapped d then ''.WrappedComponent'' else '''')"

definition baseBlock :: "data \<Rightarrow> componentInfo \<Rightarrow> classifiedProp list \<Rightarrow> string list" where
  "baseBlock d c rs =
     [''export const base = {'',
      ''  description: 'base','',
      ''  component: '' @ componentName d @ wrappedSuffix d @ '','']
     @ baseProps c rs @ [''}'', '''']"

text \<open>The nine lines that open the test module.\<close>

definition testHeaderLines :: "data \<Rightarrow> string list" where
  "testHeaderLines d =
     [''import React from 'react';'',
      ''import { shallow } from 'enzyme';'',
      ''import toJson from 'enzyme-to-json';'',
      ''import * as testCases from './'' @ componentFilePathName d @ ''.test_cases';'',
      '''',
      ''describe('<'' @ componentName d @ ''>', () => {'',
      ''  let testCase;'',
      ''  let wrapper;'',
      '''']"

text \<open>The lines pushed for one test case name by \<open>generateTestContent\<close>.\<close>

definition testCaseLines :: "nat \<Rightarrow> nat \<times> string \<Rightarrow> string list" where
  "testCaseLines n inm =
     [''  describe(testCases.'' @ snd inm @ ''.description, () => {'',
      ''    beforeEach(() => {'',
      ''      testCase = testCases.'' @ snd inm @ '';'',
      ''      wrapper = shallow(React.createElement(testCase.component, testCase.props));'',
      ''    });'',
      '''',
      ''    it('renders', () => {'',
      ''      expect(toJson(wrapper)).toMatchSnapshot();'',
      ''    });'',
      ''  });'']
     @ (if int (fst inm) \<noteq> int n - 1 then [''''] else [])"

section \<open>Example inputs\<close>

text \<open>
  A component \<open>components/user_card.js\<close> with two required properties, an optional
  one and one whose type cannot be deduced.
\<close>

definition exampleProps :: "(string \<times> propDescriptor) list" where
  "exampleProps =
     [(''name'', \<lparr>pd_flowType = Some \<lparr>ft_name = ''string'', ft_elements = []\<rparr>,
                  pd_type = TypeAbsent, pd_required = Some True\<rparr>),
      (''id'', \<lparr>pd_flowType = None, pd_type = TypeRaw ''PropTypes.number.isRequired'',
                pd_required = None\<rparr>),
      (''active'', \<lparr>pd_flowType = Some \<lparr>ft_name = ''boolean'', ft_elements = []\<rparr>,
                    pd_type = TypeAbsent, pd_required = Some False\<rparr>),
      (''extra'', \<lparr>pd_flowType = None, pd_type = TypeNoRaw, pd_required = None\<rparr>)]"

definition exampleData :: data where
  "exampleData =
     \<lparr>componentName = ''UserCard'',
      componentFilePath = ''components/user_card.js'',
      componentFilePathName = ''user_card'',
      testDirectory = ''components/__tests__'',
      testCasesFile = ''components/__tests__/user_card.test_cases.js'',
      testFile = ''components/__tests__/user_card.test.js'',
      component = Some \<lparr>props = Some exampleProps\<rparr>,
      wrapped = False,
      classifiedProps = [],
      testCasesContent = [],
      requiredProps = [],
      optionalProps = [],
      testContent = []\<rparr>"

text \<open>The same file with no declared properties: the parser leaves \<open>props\<close> out.\<close>

definition bareData :: data where
  "bareData = exampleData\<lparr>component := Some \<lparr>props = None\<rparr>\<rparr>"

text \<open>A first run, in a directory without \<open>__tests__\<close>, and a second one after it.\<close>

definition exampleEnv :: env where
  "exampleEnv =
     \<lparr>argv2 = Some ''components/user_card.js'',
      pathParse = (\<lambda>_. (''components'', ''user_card'')),
      readFileSync = (\<lambda>_. Inr ''export const UserCard = (props: Props) => null;''),
      parse = (\<lambda>_. Inr \<lparr>props = Some exampleProps\<rparr>),
      parseAll = (\<lambda>_. Inr [\<lparr>props = Some exampleProps\<rparr>]),
      existsSync = (\<lambda>_. False),
      mkdir = (\<lambda>_. None)\<rparr>"

definition secondRunEnv :: env where
  "secondRunEnv = exampleEnv\<lparr>existsSync := (\<lambda>_. True), mkdir := (\<lambda>_. Some (External ''EEXIST''))\<rparr>"

text \<open>A file that the parser rejects and in which two component definitions are found.\<close>

definition ambiguousEnv :: env where
  "ambiguousEnv =
     exampleEnv\<lparr>parse := (\<lambda>_. Inl (External ''Multiple exported component definitions found.'')),
                 parseAll := (\<lambda>_. Inr [\<lparr>props = Some exampleProps\<rparr>, \<lparr>props = None\<rparr>])\<rparr>"

definition emptyWorld :: world where
  "emptyWorld = \<lparr>dirs = [], files = [], console = []\<rparr>"

text \<open>The example after \<open>getPropDefaults\<close>.\<close>

definition exampleClassified :: data where
  "exampleClassified =
     exampleData\<lparr>classifiedProps :=
       [\<lparr>name = ''name'', required = Some True, defaultValue = JStr quotes, message = ''''\<rparr>,
        \<lparr>name = ''id'', required = Some True, defaultValue = JNull, message = ''''\<rparr>,
        \<lparr>name = ''active'', required = Some False, defaultValue = JBool True, message = ''''\<rparr>,
        \<lparr>name = ''extra'', required = None, defaultValue = JStr quotes,
          message = ''Could not deduce prop type''\<rparr>]\<rparr>"

section \<open>The stages that do not touch the file system\<close>

text \<open>\<open>.then\<close> on a promise alone, and the first five stages of the chain.\<close>

definition bindP :: "('e, 'a) promise \<Rightarrow> ('a \<Rightarrow> ('e, 'b) promise) \<Rightarrow> ('e, 'b) promise" where
  "bindP p f = (case p of Fulfilled v \<Rightarrow> f v | Rejected x \<Rightarrow> Rejected x | Pending \<Rightarrow> Pending)"

definition generated :: "env \<Rightarrow> (failure, data) promise" where
  "generated e =
     bindP (bindP (bindP (bindP (getFileAndComponentName e)
       (getComponentInfo e))
       getPropDefaults)
       generateTestCasesContent)
       generateTestContent"

text \<open>The two files that \<open>createTestFiles\<close> writes for a record.\<close>

definition written :: "data \<Rightarrow> (string \<times> string) list" where
  "written d =
     [(testCasesFile d, join [newline] (testCasesContent d)),
      (testFile d, join [newline] (testContent d))]"

text \<open>
  The third to fifth stages of the chain, from the record that \<open>getComponentInfo\<close>
  hands on: classification and the two emitters.
\<close>

definition emitted :: "data \<Rightarrow> (failure, data) promise" where
  "emitted d = bindP (bindP (getPropDefaults d) generateTestCasesContent) generateTestContent"

section \<open>Further example records\<close>

text \<open>
  The record of the example with other contents in every field that is neither the
  parsed schema nor path metadata read by the emitters.
\<close>

definition staleData :: data where
  "staleData =
     exampleData
       \<lparr>componentFilePath := ''elsewhere/user_card.js'',
        testCasesFile := ''old/user_card.test_cases.js'',
        testFile := ''old/user_card.test.js'',
        classifiedProps :=
          [\<lparr>name = ''gone'', required = Some True, defaultValue = JBool False, message = ''old''\<rparr>],
        testCasesContent := [''export const gone = {'', ''}''],
        requiredProps :=
          [\<lparr>name = ''gone'', required = Some True, defaultValue = JBool False, message = ''old''\<rparr>],
        optionalProps :=
          [\<lparr>name = ''never'', required = None, defaultValue = JNull, message = ''''\<rparr>],
        testContent := [''describe('<Gone>', () => {'', ''});'']\<rparr>"




section \<open>Lemmas on the fixture emitter\<close>

lemma pushCase_fields [simp]:
  "testCasesContent (pushCase l d) = testCasesContent d @ [l]"
  "requiredProps (pushCase l d) = requiredProps d"
  "optionalProps (pushCase l d) = optionalProps d"
  "componentName (pushCase l d) = componentName d"
  by (simp_all add: pushCase_def)

lemma requiredPropLine_eq:
  "requiredPropLine ex ip d =
     d\<lparr>testCasesContent := testCasesContent d @ [requiredLineText ex (length (requiredProps d)) ip]\<rparr>"
  by (simp add: requiredPropLine_def requiredLineText_def pushCase_def Let_def)

lemma fold_requiredPropLine:
  "fold (requiredPropLine ex) xs d =
     d\<lparr>testCasesContent := testCasesContent d @ map (requiredLineText ex (length (requiredProps d))) xs\<rparr>"
proof (induction xs arbitrary: d)
  case Nil
  show ?case by simp
next
  case (Cons x xs)
  have "fold (requiredPropLine ex) (x # xs) d = fold (requiredPropLine ex) xs (requiredPropLine ex x d)"
    by simp
  also have "\<dots> = (requiredPropLine ex x d)\<lparr>testCasesContent :=
      testCasesContent (requiredPropLine ex x d)
        @ map (requiredLineText ex (length (requiredProps (requiredPropLine ex x d)))) xs\<rparr>"
    by (rule Cons.IH)
  also have "\<dots> = d\<lparr>testCasesContent :=
      testCasesContent d @ map (requiredLineText ex (length (requiredProps d))) (x # xs)\<rparr>"
    by (simp add: requiredPropLine_eq)
  finally show ?case .
qed

lemma requiredPropsFormatted_eq:
  "requiredPropsFormatted ex d =
     d\<lparr>testCasesContent := testCasesContent d @ requiredLines ex (requiredProps d)\<rparr>"
  by (simp add: requiredPropsFormatted_def fold_requiredPropLine requiredLines_def)

lemma basePropsFormatted_eq:
  "basePropsFormatted c d = d\<lparr>testCasesContent := testCasesContent d @ baseProps c (requiredProps d)\<rparr>"
  by (simp add: basePropsFormatted_def baseProps_def requiredPropsFormatted_eq pushCase_def)

lemma optionalPropFormatted_eq:
  "optionalPropFormatted wr p d =
     d\<lparr>testCasesContent := testCasesContent d @ optionalBlock (componentName d) wr (requiredProps d) p\<rparr>"
  by (simp add: optionalPropFormatted_def optionalBlock_def requiredPropsFormatted_eq pushCase_def Let_def)

lemma fold_optionalPropFormatted:
  "fold (optionalPropFormatted wr) ps d =
     d\<lparr>testCasesContent := testCasesContent d
          @ concat (map (optionalBlock (componentName d) wr (requiredProps d)) ps)\<rparr>"
proof (induction ps arbitrary: d)
  case Nil
  show ?case by simp
next
  case (Cons p ps)
  have "fold (optionalPropFormatted wr) (p # ps) d
          = fold (optionalPropFormatted wr) ps (optionalPropFormatted wr p d)"
    by simp
  also have "\<dots> = (optionalPropFormatted wr p d)\<lparr>testCasesContent :=
      testCasesContent (optionalPropFormatted wr p d)
        @ concat (map (optionalBlock (componentName (optionalPropFormatted wr p d)) wr
                         (requiredProps (optionalPropFormatted wr p d))) ps)\<rparr>"
    by (rule Cons.IH)
  also have "\<dots> = d\<lparr>testCasesContent := testCasesContent d
          @ concat (map (optionalBlock (componentName d) wr (requiredProps d)) (p # ps))\<rparr>"
    by (simp add: optionalPropFormatted_eq)
  finally show ?case .
qed

lemma generateTestCasesContent_eq:
  assumes "component d = Some c"
  shows "generateTestCasesContent d =
     Fulfilled (d\<lparr>testCasesContent :=
                    importLines d
                    @ baseBlock d c (filter isRequired (classifiedProps d))
                    @ concat (map (optionalBlock (componentName d) (wrappedSuffix d)
                                     (filter isRequired (classifiedProps d)))
                                (filter (\<lambda>p. \<not> isRequired p) (classifiedProps d))),
                  requiredProps := filter isRequired (classifiedProps d),
                  optionalProps := filter (\<lambda>p. \<not> isRequired p) (classifiedProps d)\<rparr>)"
  using assms
  by (simp add: generateTestCasesContent_def Let_def fold_optionalPropFormatted
      basePropsFormatted_eq pushCase_def importLines_def baseBlock_def wrappedSuffix_def)

section \<open>Lemmas on scenarios and props blocks\<close>

lemma requiredLineText_not_export: "\<not> isExport (requiredLineText ex n ip)"
  by (simp add: isExport_def requiredLineText_def)

lemma requiredLines_not_export: "l \<in> set (requiredLines ex rs) \<Longrightarrow> \<not> isExport l"
  by (auto simp: requiredLines_def requiredLineText_not_export)

lemma requiredLineText_not_close: "requiredLineText ex n ip \<noteq> ''  }''"
  by (simp add: requiredLineText_def)

lemma requiredLines_not_close: "l \<in> set (requiredLines ex rs) \<Longrightarrow> l \<noteq> ''  }''"
  by (auto simp: requiredLines_def requiredLineText_not_close)

lemma scenarios_skip: "\<forall>l\<in>set xs. \<not> isExport l \<Longrightarrow> scenarios (xs @ ys) = scenarios ys"
  by (induction xs) simp_all

lemma takeWhile_body:
  assumes "\<forall>l\<in>set body. \<not> isExport l" and "rest = [] \<or> isExport (hd rest)"
  shows "takeWhile (\<lambda>x. \<not> isExport x) (body @ rest) = body"
proof (cases rest)
  case Nil
  then show ?thesis using assms(1) by simp
next
  case (Cons r rs)
  then have "isExport r" using assms(2) by simp
  then show ?thesis using assms(1) Cons by (simp add: takeWhile_tail)
qed

lemma scenarios_block:
  assumes "isExport e" and "\<forall>l\<in>set body. \<not> isExport l" and "rest = [] \<or> isExport (hd rest)"
  shows "scenarios (e # body @ rest) = (e # body) # scenarios rest"
proof -
  have tw: "takeWhile (\<lambda>x. \<not> isExport x) (body @ rest) = body"
    by (rule takeWhile_body[OF assms(2,3)])
  have sk: "scenarios (body @ rest) = scenarios rest"
    by (rule scenarios_skip[OF assms(2)])
  show ?thesis
    by (simp only: scenarios.simps assms(1) if_True tw sk)
qed

lemma optionalBlock_Cons:
  "\<exists>body. optionalBlock cn wr rs p = (''export const '' @ name p @ '' = {'') # body
      \<and> (\<forall>l\<in>set body. \<not> isExport l)"
  by (auto simp: optionalBlock_def isExport_def dest: requiredLines_not_export)

lemma isExport_hd_optionals:
  "concat (map (optionalBlock cn wr rs) ps) = []
     \<or> isExport (hd (concat (map (optionalBlock cn wr rs) ps)))"
proof (cases ps)
  case Nil
  then show ?thesis by simp
next
  case (Cons q qs)
  obtain body where "optionalBlock cn wr rs q = (''export const '' @ name q @ '' = {'') # body"
    using optionalBlock_Cons by blast
  then show ?thesis using Cons by (simp add: isExport_def)
qed

lemma scenarios_optionals:
  "scenarios (concat (map (optionalBlock cn wr rs) ps)) = map (optionalBlock cn wr rs) ps"
proof (induction ps)
  case Nil
  show ?case by simp
next
  case (Cons q qs)
  obtain body where b: "optionalBlock cn wr rs q = (''export const '' @ name q @ '' = {'') # body"
    and nb: "\<forall>l\<in>set body. \<not> isExport l"
    using optionalBlock_Cons by blast
  have e: "isExport (''export const '' @ name q @ '' = {'')"
    by (simp add: isExport_def)
  have "scenarios (concat (map (optionalBlock cn wr rs) (q # qs)))
          = scenarios ((''export const '' @ name q @ '' = {'') # body
                         @ concat (map (optionalBlock cn wr rs) qs))"
    by (simp add: b)
  also have "\<dots> = ((''export const '' @ name q @ '' = {'') # body)
                     # scenarios (concat (map (optionalBlock cn wr rs) qs))"
    by (rule scenarios_block[OF e nb isExport_hd_optionals])
  finally show ?case by (simp add: Cons.IH b)
qed

lemma baseBlock_Cons:
  "\<exists>body. baseBlock d c rs = ''export const base = {'' # body \<and> (\<forall>l\<in>set body. \<not> isExport l)"
  by (auto simp: baseBlock_def baseProps_def isExport_def dest: requiredLines_not_export)

lemma importLines_not_export: "\<forall>l\<in>set (importLines d). \<not> isExport l"
  by (simp add: importLines_def isExport_def)

lemma scenarios_content:
  "scenarios (importLines d @ baseBlock d c rs @ concat (map (optionalBlock cn wr rs) ps))
     = baseBlock d c rs # map (optionalBlock cn wr rs) ps"
proof -
  obtain body where b: "baseBlock d c rs = ''export const base = {'' # body"
    and nb: "\<forall>l\<in>set body. \<not> isExport l"
    using baseBlock_Cons by blast
  have e: "isExport ''export const base = {''"
    by (simp add: isExport_def)
  have "scenarios (importLines d @ baseBlock d c rs @ concat (map (optionalBlock cn wr rs) ps))
          = scenarios (''export const base = {'' # body @ concat (map (optionalBlock cn wr rs) ps))"
    by (simp add: scenarios_skip importLines_not_export b)
  also have "\<dots> = (''export const base = {'' # body)
                     # scenarios (concat (map (optionalBlock cn wr rs) ps))"
    by (rule scenarios_block[OF e nb isExport_hd_optionals])
  finally show ?thesis by (simp add: scenarios_optionals b)
qed

lemma propsBlock_optionalBlock:
  "propsBlock (optionalBlock cn wr rs p)
     = requiredLines False rs
       @ [''    '' @ name p @ '': '' @ toStr (defaultValue p)
            @ (if message p \<noteq> [] then '' // '' @ message p else '''')]"
proof -
  have "takeWhile (\<lambda>l. l \<noteq> ''  }'') (requiredLines False rs @ x # ''  }'' # ys)
          = requiredLines False rs @ takeWhile (\<lambda>l. l \<noteq> ''  }'') (x # ''  }'' # ys)" for x ys
    by (rule takeWhile_append2) (simp add: requiredLines_not_close)
  then show ?thesis
    by (simp add: propsBlock_def optionalBlock_def apos_def)
qed

lemma propsBlock_baseBlock:
  "propsBlock (baseBlock d c rs) = (if props c = None \<or> rs = [] then [] else requiredLines True rs)"
proof -
  have "takeWhile (\<lambda>l. l \<noteq> ''  }'') (requiredLines True rs @ ''  }'' # ys) = requiredLines True rs" for ys
    by (simp add: takeWhile_tail requiredLines_not_close)
  then show ?thesis
    by (simp add: propsBlock_def baseBlock_def baseProps_def)
qed

section \<open>Lemmas on the classifier\<close>

lemma deduceType_message:
  "deduceType v = Inr (t, r, m) \<Longrightarrow> r = Some True \<Longrightarrow> m = []"
  by (auto simp: deduceType_def split: option.splits list.splits typeDescriptor.splits if_splits)

lemma classifyProp_message:
  "classifyProp nv = Inr p \<Longrightarrow> isRequired p \<Longrightarrow> message p = []"
  by (auto simp: classifyProp_def isRequired_def split: sum.splits dest: deduceType_message)

lemma classifyAll_message:
  "classifyAll ps acc = Inr cs \<Longrightarrow> \<forall>p\<in>set acc. isRequired p \<longrightarrow> message p = []
     \<Longrightarrow> \<forall>p\<in>set cs. isRequired p \<longrightarrow> message p = []"
proof (induction ps arbitrary: acc)
  case Nil
  then show ?case by simp
next
  case (Cons q qs)
  from Cons.prems(1) obtain c where c: "classifyProp q = Inr c" and r: "classifyAll qs (acc @ [c]) = Inr cs"
    by (auto split: sum.splits)
  have "\<forall>p\<in>set (acc @ [c]). isRequired p \<longrightarrow> message p = []"
    using Cons.prems(2) classifyProp_message[OF c] by auto
  then show ?case by (rule Cons.IH[OF r])
qed

lemma getPropDefaults_message:
  assumes "getPropDefaults d = Fulfilled d'"
  shows "\<forall>p\<in>set (classifiedProps d'). isRequired p \<longrightarrow> message p = []"
proof -
  from assms obtain c cs where "component d = Some c"
    and cs: "classifyAll (case props c of None \<Rightarrow> [] | Some ps \<Rightarrow> ps) [] = Inr cs"
    and d': "d' = d\<lparr>classifiedProps := cs\<rparr>"
    by (auto simp: getPropDefaults_def split: option.splits sum.splits)
  have "\<forall>p\<in>set cs. isRequired p \<longrightarrow> message p = []"
    by (rule classifyAll_message[OF cs]) simp
  then show ?thesis by (simp add: d')
qed

lemma getPropDefaults_component:
  "getPropDefaults d = Fulfilled d' \<Longrightarrow> \<exists>c. component d' = Some c \<and> component d = Some c"
  by (auto simp: getPropDefaults_def split: option.splits sum.splits)

lemma map_enumerate_nth:
  "map f (enumerate 0 xs) = map (\<lambda>i. f (i, xs ! i)) [0..<length xs]"
  by (rule nth_equalityI) (simp_all add: nth_enumerate_eq)

lemma requiredLines_no_message:
  assumes "\<forall>p\<in>set rs. message p = []"
  shows "requiredLines True rs
           = map (\<lambda>i. propLine (rs ! i) @ (if i + 1 = length rs then '''' else '',''))
               [0..<length rs]"
proof -
  have "requiredLineText True (length rs) (i, rs ! i)
          = propLine (rs ! i) @ (if i + 1 = length rs then '''' else '','')"
    if "i < length rs" for i
  proof -
    have "message (rs ! i) = []" using assms that by simp
    moreover have "(int i = int (length rs) - 1) = (i + 1 = length rs)" by arith
    ultimately show ?thesis
      by (simp add: requiredLineText_def propLine_def)
  qed
  then show ?thesis
    by (simp add: requiredLines_def map_enumerate_nth)
qed

lemma requiredLines_prefix:
  assumes "p \<in> set rs"
  shows "\<exists>l\<in>set (requiredLines ex rs). take (length (propLine p)) l = propLine p"
proof -
  from assms obtain i where i: "i < length rs" and p: "rs ! i = p"
    by (auto simp: in_set_conv_nth)
  have "requiredLineText ex (length rs) (i, p) \<in> set (requiredLines ex rs)"
    unfolding requiredLines_def map_enumerate_nth using i p by auto
  moreover have "take (length (propLine p)) (requiredLineText ex (length rs) (i, p)) = propLine p"
    by (simp add: requiredLineText_def propLine_def)
  ultimately show ?thesis by blast
qed

text \<open>
  C5: a property without a static annotation whose descriptor text is
  \<open>PropTypes.string.isRequired\<close> is classified as required, with the type name
  \<open>string\<close> and the default value \<open>''\<close> (two quote characters).
\<close>

theorem C5_propTypes_string_isRequired:
  assumes "pd_flowType v = None" and "pd_type v = TypeRaw ''PropTypes.string.isRequired''"
  shows "deduceType v = Inr (''string'', Some True, '''')
     \<and> classifyProp (n, v)
         = Inr \<lparr>name = n, required = Some True, defaultValue = JStr [CHR 0x27, CHR 0x27], message = ''''\<rparr>"
  using assms
  by (simp add: classifyProp_def deduceType_def matchPropTypesDot_def matchDotIsRequired_def
      isLineTerminator_def propTypes_def getProperty_def orNull_def quotes_def)

theorem C5_propTypes_string_isRequired_witness:
  "deduceType \<lparr>pd_flowType = None, pd_type = TypeRaw ''PropTypes.string.isRequired'', pd_required = None\<rparr>
     = Inr (''string'', Some True, '''')
   \<and> classifyProp (''title'', \<lparr>pd_flowType = None, pd_type = TypeRaw ''PropTypes.string.isRequired'', pd_required = None\<rparr>)
     = Inr \<lparr>name = ''title'', required = Some True, defaultValue = JStr [CHR 0x27, CHR 0x27], message = ''''\<rparr>"
  using C5_propTypes_string_isRequired
    [of "\<lparr>pd_flowType = None, pd_type = TypeRaw ''PropTypes.string.isRequired'', pd_required = None\<rparr>" "''title''"]
  by simp

text \<open>
  C6: a property with a static annotation of type name \<open>boolean\<close> whose required flag
  is not set (false, or missing) keeps that flag, which the emitters read as not
  required, and gets the default value \<open>true\<close>.
\<close>

theorem C6_flow_boolean_optional:
  assumes "pd_flowType v = Some ft" and "ft_name ft = ''boolean''" and "pd_required v \<noteq> Some True"
  shows "\<exists>p. classifyProp (n, v) = Inr p \<and> required p = pd_required v \<and> \<not> isRequired p
     \<and> (pd_required v = Some False \<longrightarrow> required p = Some False)
     \<and> defaultValue p = JBool True"
  using assms
  by (simp add: classifyProp_def deduceType_def propTypes_def getProperty_def orNull_def isRequired_def)

theorem C6_flow_boolean_optional_witness:
  "classifyProp (''active'', \<lparr>pd_flowType = Some \<lparr>ft_name = ''boolean'', ft_elements = []\<rparr>,
       pd_type = TypeAbsent, pd_required = Some False\<rparr>)
     = Inr \<lparr>name = ''active'', required = Some False, defaultValue = JBool True, message = ''''\<rparr>"
  using C6_flow_boolean_optional
    [of "\<lparr>pd_flowType = Some \<lparr>ft_name = ''boolean'', ft_elements = []\<rparr>,
           pd_type = TypeAbsent, pd_required = Some False\<rparr>"
        "\<lparr>ft_name = ''boolean'', ft_elements = []\<rparr>" "''active''"]
  by (auto simp: classifyProp_def deduceType_def)

text \<open>
  C1: the table maps \<open>number\<close> to 0, but the lookup \<open>propTypes[defaultValue] || null\<close>
  turns the falsy 0 into \<open>null\<close>: a property of type \<open>number\<close> is classified with the
  default value \<open>null\<close>, with a static annotation as with a descriptor text.
\<close>

theorem C1_number_default_is_null:
  "map_of propTypes ''number'' = Some (JNum 0)
   \<and> classifyProp (''count'', \<lparr>pd_flowType = Some \<lparr>ft_name = ''number'', ft_elements = []\<rparr>,
         pd_type = TypeAbsent, pd_required = Some True\<rparr>)
       = Inr \<lparr>name = ''count'', required = Some True, defaultValue = JNull, message = ''''\<rparr>
   \<and> classifyProp (''count'', \<lparr>pd_flowType = None,
         pd_type = TypeRaw ''PropTypes.number'', pd_required = None\<rparr>)
       = Inr \<lparr>name = ''count'', required = Some False, defaultValue = JNull, message = ''''\<rparr>"
  by (simp add: classifyProp_def deduceType_def matchPropTypesDot_def matchDotIsRequired_def
      isLineTerminator_def propTypes_def getProperty_def orNull_def)

section \<open>The fixture module\<close>

lemma emitted_fixture:
  assumes "generateTestCasesContent d = Fulfilled d'"
  shows "\<exists>c. component d = Some c
     \<and> requiredProps d' = filter isRequired (classifiedProps d)
     \<and> optionalProps d' = filter (\<lambda>p. \<not> isRequired p) (classifiedProps d)
     \<and> testCasesContent d' =
         importLines d @ baseBlock d c (requiredProps d')
         @ concat (map (optionalBlock (componentName d) (wrappedSuffix d) (requiredProps d'))
                     (optionalProps d'))"
proof -
  from assms obtain c where c: "component d = Some c"
    by (auto simp: generateTestCasesContent_def split: option.splits)
  show ?thesis
    using assms unfolding generateTestCasesContent_eq[OF c] by (auto simp: c)
qed

lemma emitted_scenarios:
  assumes "generateTestCasesContent d = Fulfilled d'"
  shows "\<exists>c. component d = Some c
     \<and> scenarios (testCasesContent d') =
         baseBlock d c (requiredProps d')
         # map (optionalBlock (componentName d) (wrappedSuffix d) (requiredProps d')) (optionalProps d')"
  using emitted_fixture[OF assms] by (auto simp: scenarios_content)

lemma getPropDefaults_no_props:
  assumes "getPropDefaults d = Fulfilled d'" and "component d' = Some c" and "props c = None"
  shows "classifiedProps d' = []"
  using assms by (auto simp: getPropDefaults_def split: option.splits sum.splits)

text \<open>
  On the output of the classifier, where no required property has a message, the
  props block of the base scenario has one line per required property, in order:
  \<open>name: classifiedValue\<close>, then a comma unless the line is the last, and no comment.
\<close>

lemma classified_base_lines:
  assumes "getPropDefaults d0 = Fulfilled d1"
    and "generateTestCasesContent d1 = Fulfilled d2"
    and "requiredProps d2 \<noteq> []"
  shows "requiredProps d2 = filter isRequired (classifiedProps d1)
     \<and> (\<forall>p\<in>set (requiredProps d2). message p = [])
     \<and> propsBlock (hd (scenarios (testCasesContent d2)))
         = map (\<lambda>i. propLine (requiredProps d2 ! i)
                      @ (if i + 1 = length (requiredProps d2) then '''' else '',''))
             [0..<length (requiredProps d2)]"
proof -
  from emitted_fixture[OF assms(2)] obtain c where c: "component d1 = Some c"
    and rs: "requiredProps d2 = filter isRequired (classifiedProps d1)"
    by blast
  from emitted_scenarios[OF assms(2)] c
  have hd: "hd (scenarios (testCasesContent d2)) = baseBlock d1 c (requiredProps d2)"
    by auto
  have "props c \<noteq> None"
    using getPropDefaults_no_props[OF assms(1) c] rs assms(3) by (cases "props c") auto
  then have pb: "propsBlock (baseBlock d1 c (requiredProps d2)) = requiredLines True (requiredProps d2)"
    using assms(3) by (auto simp: propsBlock_baseBlock)
  have nm: "\<forall>p\<in>set (requiredProps d2). message p = []"
    using getPropDefaults_message[OF assms(1)] rs by simp
  have "propsBlock (hd (scenarios (testCasesContent d2))) = requiredLines True (requiredProps d2)"
    by (simp only: hd pb)
  also note requiredLines_no_message[OF nm]
  finally show ?thesis using rs nm by blast
qed

text \<open>
  C4: after classification, the fixture module has one scenario for \<open>base\<close> and one
  for each optional property, in order, and the props block of every scenario has a
  line for every required property.
\<close>

theorem C4_scenario_count:
  assumes "getPropDefaults d0 = Fulfilled d"
    and "generateTestCasesContent d = Fulfilled d'"
  shows "length (scenarios (testCasesContent d'))
           = 1 + length (filter (\<lambda>p. \<not> isRequired p) (classifiedProps d))
     \<and> map hd (scenarios (testCasesContent d'))
           = ''export const base = {''
             # map (\<lambda>p. ''export const '' @ name p @ '' = {'')
                 (filter (\<lambda>p. \<not> isRequired p) (classifiedProps d))
     \<and> (\<forall>b\<in>set (scenarios (testCasesContent d')).
          \<forall>p\<in>set (filter isRequired (classifiedProps d)).
            \<exists>l\<in>set (propsBlock b). take (length (propLine p)) l = propLine p)"
proof -
  from emitted_fixture[OF assms(2)] emitted_scenarios[OF assms(2)] obtain c
    where c: "component d = Some c"
    and rs: "requiredProps d' = filter isRequired (classifiedProps d)"
    and os: "optionalProps d' = filter (\<lambda>p. \<not> isRequired p) (classifiedProps d)"
    and sc: "scenarios (testCasesContent d') =
         baseBlock d c (requiredProps d')
         # map (optionalBlock (componentName d) (wrappedSuffix d) (requiredProps d')) (optionalProps d')"
    by auto
  have len: "length (scenarios (testCasesContent d'))
           = 1 + length (filter (\<lambda>p. \<not> isRequired p) (classifiedProps d))"
    by (simp add: sc os)
  have hds: "map hd (scenarios (testCasesContent d'))
           = ''export const base = {''
             # map (\<lambda>p. ''export const '' @ name p @ '' = {'')
                 (filter (\<lambda>p. \<not> isRequired p) (classifiedProps d))"
    by (simp add: sc os baseBlock_def optionalBlock_def)
  have blocks: "\<exists>l\<in>set (propsBlock b). take (length (propLine p)) l = propLine p"
    if b: "b \<in> set (scenarios (testCasesContent d'))"
      and p: "p \<in> set (filter isRequired (classifiedProps d))" for b p
  proof -
    have pr: "p \<in> set (requiredProps d')" using p rs by simp
    then have ne: "requiredProps d' \<noteq> []" by auto
    from b sc consider "b = baseBlock d c (requiredProps d')"
      | q where "b = optionalBlock (componentName d) (wrappedSuffix d) (requiredProps d') q"
      by auto
    then show ?thesis
    proof cases
      case 1
      have "props c \<noteq> None"
        using getPropDefaults_no_props[OF assms(1) c] rs ne by (cases "props c") auto
      then have "propsBlock b = requiredLines True (requiredProps d')"
        using 1 ne by (auto simp: propsBlock_baseBlock)
      then show ?thesis using requiredLines_prefix[OF pr] by simp
    next
      case 2
      then have "set (requiredLines False (requiredProps d')) \<subseteq> set (propsBlock b)"
        by (auto simp: propsBlock_optionalBlock)
      then show ?thesis using requiredLines_prefix[OF pr, of False] by blast
    qed
  qed
  show ?thesis using len hds blocks by blast
qed

section \<open>The example component\<close>

lemma example_classified: "getPropDefaults exampleData = Fulfilled exampleClassified"
  by (simp add: getPropDefaults_def exampleData_def exampleProps_def classifyProp_def deduceType_def
      matchPropTypesDot_def matchDotIsRequired_def isLineTerminator_def
      propTypes_def getProperty_def orNull_def quotes_def exampleClassified_def)

lemma example_emitted:
  "\<exists>d2. generateTestCasesContent exampleClassified = Fulfilled d2
     \<and> requiredProps d2 =
       [\<lparr>name = ''name'', required = Some True, defaultValue = JStr quotes, message = ''''\<rparr>,
        \<lparr>name = ''id'', required = Some True, defaultValue = JNull, message = ''''\<rparr>]
     \<and> optionalProps d2 =
       [\<lparr>name = ''active'', required = Some False, defaultValue = JBool True, message = ''''\<rparr>,
        \<lparr>name = ''extra'', required = None, defaultValue = JStr quotes,
          message = ''Could not deduce prop type''\<rparr>]"
  by (simp add: generateTestCasesContent_eq[of _ "\<lparr>props = Some exampleProps\<rparr>"]
      exampleClassified_def exampleData_def isRequired_def)

lemma example_base_lines:
  "\<exists>d2. getPropDefaults exampleData = Fulfilled exampleClassified
     \<and> generateTestCasesContent exampleClassified = Fulfilled d2
     \<and> requiredProps d2 \<noteq> []
     \<and> propsBlock (hd (scenarios (testCasesContent d2)))
         = [''    name: '' @ quotes @ '','', ''    id: null'']"
proof -
  from example_emitted obtain d2 where
    h2: "generateTestCasesContent exampleClassified = Fulfilled d2"
    and rs: "requiredProps d2 =
       [\<lparr>name = ''name'', required = Some True, defaultValue = JStr quotes, message = ''''\<rparr>,
        \<lparr>name = ''id'', required = Some True, defaultValue = JNull, message = ''''\<rparr>]"
    by blast
  have h3: "requiredProps d2 \<noteq> []" by (simp add: rs)
  have two: "[0..<2] = [0, Suc 0]" by (simp add: upt_rec)
  from classified_base_lines[OF example_classified h2 h3]
  have "propsBlock (hd (scenarios (testCasesContent d2)))
         = [''    name: '' @ quotes @ '','', ''    id: null'']"
    by (simp add: rs two propLine_def)
  with example_classified h2 h3 show ?thesis by (intro exI[of _ d2] conjI)
qed

theorem C4_scenario_count_witness:
  "\<exists>d2. getPropDefaults exampleData = Fulfilled exampleClassified
     \<and> generateTestCasesContent exampleClassified = Fulfilled d2
     \<and> length (scenarios (testCasesContent d2)) = 3
     \<and> map hd (scenarios (testCasesContent d2))
          = [''export const base = {'', ''export const active = {'', ''export const extra = {'']"
proof -
  from example_emitted obtain d2 where
    h2: "generateTestCasesContent exampleClassified = Fulfilled d2"
    by blast
  have cp: "filter (\<lambda>p. \<not> isRequired p) (classifiedProps exampleClassified)
      = [\<lparr>name = ''active'', required = Some False, defaultValue = JBool True, message = ''''\<rparr>,
        \<lparr>name = ''extra'', required = None, defaultValue = JStr quotes,
          message = ''Could not deduce prop type''\<rparr>]"
    by (simp add: exampleClassified_def isRequired_def)
  from C4_scenario_count[OF example_classified h2]
  have "length (scenarios (testCasesContent d2)) = 3"
    and "map hd (scenarios (testCasesContent d2))
          = [''export const base = {'', ''export const active = {'', ''export const extra = {'']"
    by (simp_all add: cp)
  with example_classified h2 show ?thesis by (intro exI[of _ d2] conjI)
qed

section \<open>The relative prefix of the helper import\<close>

lemma replaceSegments_Nil: "replaceSegments [] = ''.''"
  by (subst replaceSegments.simps) simp

lemma replaceSegments_slash: "replaceSegments (CHR ''/'' # cs) = ''./'' @ replaceSegments cs"
  by (subst replaceSegments.simps) simp

lemma replaceSegments_char:
  "c \<noteq> CHR ''/'' \<Longrightarrow>
     replaceSegments (c # cs) = ''.'' @ replaceSegments (dropWhile (\<lambda>c. c \<noteq> CHR ''/'') cs)"
  by (subst replaceSegments.simps) simp

lemma splitSlash_not_Nil: "splitSlash s \<noteq> []"
  by (induction s) (auto split: list.splits)

lemma splitSlash_append:
  "\<forall>c\<in>set xs. c \<noteq> CHR ''/'' \<Longrightarrow>
     splitSlash (xs @ ys) = (xs @ hd (splitSlash ys)) # tl (splitSlash ys)"
proof (induction xs)
  case Nil
  then show ?case using splitSlash_not_Nil[of ys] by simp
next
  case (Cons x xs)
  then show ?case by simp
qed

lemma splitSlash_no_slash: "\<forall>c\<in>set xs. c \<noteq> CHR ''/'' \<Longrightarrow> splitSlash xs = [xs]"
  using splitSlash_append[of xs "[]"] by simp

lemma splitSlash_replaceSegments:
  "splitSlash (replaceSegments s) = map (\<lambda>seg. if seg = [] then ''.'' else ''..'') (splitSlash s)"
proof (induction s rule: length_induct)
  case (1 s)
  show ?case
  proof (cases s)
    case Nil
    then show ?thesis by (simp add: replaceSegments_Nil)
  next
    case (Cons c cs)
    show ?thesis
    proof (cases "c = CHR ''/''")
      case True
      have "splitSlash (replaceSegments cs)
              = map (\<lambda>seg. if seg = [] then ''.'' else ''..'') (splitSlash cs)"
        using 1 Cons by simp
      then show ?thesis using True Cons by (simp add: replaceSegments_slash)
    next
      case False
      let ?run = "takeWhile (\<lambda>c. c \<noteq> CHR ''/'') cs"
      let ?rest = "dropWhile (\<lambda>c. c \<noteq> CHR ''/'') cs"
      have cs: "cs = ?run @ ?rest" by simp
      have run: "\<forall>x\<in>set (c # ?run). x \<noteq> CHR ''/''"
        using False by (auto dest: set_takeWhileD)
      have rs: "replaceSegments s = ''.'' @ replaceSegments ?rest"
        using False Cons by (simp add: replaceSegments_char)
      show ?thesis
      proof (cases ?rest)
        case Nil
        then have "\<forall>x\<in>set s. x \<noteq> CHR ''/''"
          using False \<open>s = c # cs\<close> by (simp add: dropWhile_eq_Nil_conv)
        then have "splitSlash s = [s]"
          by (rule splitSlash_no_slash)
        moreover have "replaceSegments s = ''..''"
          using rs Nil by (simp add: replaceSegments_Nil)
        ultimately show ?thesis using \<open>s = c # cs\<close> by simp
      next
        case (Cons r rest')
        have r: "r = CHR ''/''"
          using hd_dropWhile[of "\<lambda>c. c \<noteq> CHR ''/''" cs] Cons by simp
        have "length rest' < length s"
          using arg_cong[OF cs, of length] Cons \<open>s = c # cs\<close> by simp
        then have ih: "splitSlash (replaceSegments rest')
              = map (\<lambda>seg. if seg = [] then ''.'' else ''..'') (splitSlash rest')"
          using 1 by simp
        have "s = (c # ?run) @ CHR ''/'' # rest'"
          using \<open>s = c # cs\<close> cs Cons r by simp
        then have "splitSlash s = (c # ?run) # splitSlash rest'"
          using splitSlash_append[OF run, of "CHR ''/'' # rest'"] by simp
        moreover have "replaceSegments s = ''../'' @ replaceSegments rest'"
          using rs Cons r by (simp add: replaceSegments_slash)
        ultimately show ?thesis using ih by simp
      qed
    qed
  qed
qed

text \<open>
  C8: the second line of the fixture module imports the helper through the prefix
  computed from the test directory, and that prefix has \<open>..\<close> for every named segment
  of the test directory (an empty segment, before a leading slash, gives \<open>.\<close>), so it
  has as many \<open>..\<close> segments as the directory has named segments.
\<close>

theorem C8_safe_spy_prefix:
  assumes "generateTestCasesContent d = Fulfilled d'"
  shows "testCasesContent d' ! 1
           = ''import safeSpy from '' @ [CHR 0x27] @ replaceSegments (testDirectory d)
               @ ''/test/safe_spy';''
     \<and> splitSlash (replaceSegments (testDirectory d))
           = map (\<lambda>seg. if seg = [] then ''.'' else ''..'') (splitSlash (testDirectory d))
     \<and> length (filter (\<lambda>seg. seg = ''..'') (splitSlash (replaceSegments (testDirectory d))))
           = length (filter (\<lambda>seg. seg \<noteq> []) (splitSlash (testDirectory d)))"
proof -
  from emitted_fixture[OF assms]
  have "testCasesContent d' ! 1
           = ''import safeSpy from '' @ [CHR 0x27] @ replaceSegments (testDirectory d)
               @ ''/test/safe_spy';''"
    by (auto simp: importLines_def apos_def)
  moreover have "length (filter (\<lambda>seg. seg = ''..'')
                   (map (\<lambda>seg. if seg = [] then ''.'' else ''..'') xs))
                 = length (filter (\<lambda>seg. seg \<noteq> []) xs)" for xs :: "string list"
    by (induction xs) simp_all
  ultimately show ?thesis by (simp add: splitSlash_replaceSegments)
qed

theorem C8_safe_spy_prefix_witness:
  "\<exists>d2. generateTestCasesContent exampleClassified = Fulfilled d2
     \<and> testCasesContent d2 ! 1 = ''import safeSpy from '../../test/safe_spy';''
     \<and> splitSlash (replaceSegments ''components/__tests__'') = [''..'', ''..'']"
proof -
  from example_emitted obtain d2 where
    h2: "generateTestCasesContent exampleClassified = Fulfilled d2"
    by blast
  have td: "testDirectory exampleClassified = ''components/__tests__''"
    by (simp add: exampleClassified_def exampleData_def)
  have sp: "splitSlash ''components/__tests__'' = [''components'', ''__tests__'']"
    by simp
  have rs: "replaceSegments ''components/__tests__'' = ''../..''"
    by (simp add: replaceSegments_char replaceSegments_slash replaceSegments_Nil)
  from C8_safe_spy_prefix[OF h2]
  have "testCasesContent d2 ! 1 = ''import safeSpy from '../../test/safe_spy';''"
    and "splitSlash (replaceSegments ''components/__tests__'') = [''..'', ''..'']"
    by (simp_all add: td sp rs)
  with h2 show ?thesis by (intro exI[of _ d2] conjI)
qed

text \<open>
  C7: for a component without declared properties (\<open>props\<close> missing, or empty) the
  fixture module has the base scenario only, and its props line is the empty object
  followed by a comment.
\<close>

theorem C7_no_declared_props:
  assumes "component d0 = Some c" and "props c = None \<or> props c = Some []"
  shows "\<exists>d1 d2. getPropDefaults d0 = Fulfilled d1
     \<and> generateTestCasesContent d1 = Fulfilled d2
     \<and> optionalProps d2 = []
     \<and> scenarios (testCasesContent d2)
         = [[''export const base = {'',
             ''  description: 'base','',
             ''  component: '' @ componentName d0 @ (if wrapped d0 then ''.WrappedComponent'' else '''') @ '','',
             (if props c = None then ''  props: {} // could not find prop type declarations''
              else ''  props: {} // could not find required props''),
             ''}'',
             '''']]"
proof -
  have h1: "getPropDefaults d0 = Fulfilled (d0\<lparr>classifiedProps := []\<rparr>)"
    using assms by (auto simp: getPropDefaults_def)
  have c: "component (d0\<lparr>classifiedProps := []\<rparr>) = Some c"
    using assms(1) by simp
  obtain d2 where h2: "generateTestCasesContent (d0\<lparr>classifiedProps := []\<rparr>) = Fulfilled d2"
    by (simp add: generateTestCasesContent_eq[OF c])
  from emitted_fixture[OF h2] emitted_scenarios[OF h2] c
  have os: "optionalProps d2 = []"
    and sc: "scenarios (testCasesContent d2) = [baseBlock (d0\<lparr>classifiedProps := []\<rparr>) c []]"
    by auto
  have "baseBlock (d0\<lparr>classifiedProps := []\<rparr>) c []
         = [''export const base = {'',
             ''  description: 'base','',
             ''  component: '' @ componentName d0 @ (if wrapped d0 then ''.WrappedComponent'' else '''') @ '','',
             (if props c = None then ''  props: {} // could not find prop type declarations''
              else ''  props: {} // could not find required props''),
             ''}'',
             '''']"
    by (simp add: baseBlock_def baseProps_def wrappedSuffix_def)
  with h1 h2 os sc show ?thesis by (intro exI[of _ d2] exI[of _ "d0\<lparr>classifiedProps := []\<rparr>"] conjI) simp_all
qed

theorem C7_no_declared_props_witness:
  "\<exists>d1 d2. getPropDefaults bareData = Fulfilled d1
     \<and> generateTestCasesContent d1 = Fulfilled d2
     \<and> optionalProps d2 = []
     \<and> scenarios (testCasesContent d2)
         = [[''export const base = {'',
             ''  description: 'base','',
             ''  component: UserCard,'',
             ''  props: {} // could not find prop type declarations'',
             ''}'',
             '''']]"
proof -
  have c: "component bareData = Some \<lparr>props = None\<rparr>"
    by (simp add: bareData_def)
  from C7_no_declared_props[OF c]
  show ?thesis by (simp add: bareData_def exampleData_def)
qed

section \<open>Lemmas on the pipeline\<close>

lemma thenP_bindP: "thenP (p, w) f = (bindP p f, w)"
  by (simp add: thenP_def thenW_def bindP_def split: promise.splits)

lemma stages_generated:
  "stages e w = thenW (thenW (generated e, w) (createTestsDir e)) createTestFiles"
  by (simp add: stages_def generated_def thenP_bindP)

lemma createTestsDir_fst:
  "fst (createTestsDir e d w) =
     (if existsSync e (testDirectory d) then Fulfilled d
      else (case mkdir e (testDirectory d) of None \<Rightarrow> Fulfilled d | Some x \<Rightarrow> Rejected x))"
  by (simp add: createTestsDir_def resolve_def reject_def Let_def split: option.splits)

lemma createTestsDir_snd:
  "files (snd (createTestsDir e d w)) = files w \<and> console (snd (createTestsDir e d w)) = console w"
  by (simp add: createTestsDir_def Let_def split: option.splits)

lemma createTestFiles_eq:
  "createTestFiles d w = (Fulfilled d, w\<lparr>files := files w @ written d\<rparr>)"
  by (simp add: createTestFiles_def written_def resolve_def Let_def)

lemma run_rejected:
  assumes "generated e = Rejected x"
  shows "run e w = w\<lparr>console := console w @ [[newline] @ failureText x @ [newline]]\<rparr>"
  using assms by (simp add: run_def stages_generated thenW_def formatMessage_def)

lemma run_files:
  "files (run e w) = files w @
     (case generated e of
        Fulfilled d \<Rightarrow>
          (if existsSync e (testDirectory d) \<or> mkdir e (testDirectory d) = None then written d else [])
      | Rejected x \<Rightarrow> []
      | Pending \<Rightarrow> [])"
proof (cases "generated e")
  case Pending
  then show ?thesis by (simp add: run_def stages_generated thenW_def)
next
  case (Rejected x)
  then show ?thesis by (simp add: run_rejected)
next
  case (Fulfilled d)
  show ?thesis
  proof (cases "fst (createTestsDir e d w)")
    case Pending
    then show ?thesis using Fulfilled
      by (auto simp: createTestsDir_fst split: if_splits option.splits)
  next
    case (Rejected x)
    then have "\<not> (existsSync e (testDirectory d) \<or> mkdir e (testDirectory d) = None)"
      by (auto simp: createTestsDir_fst split: if_splits option.splits)
    then show ?thesis using Fulfilled Rejected
      by (auto simp: run_def stages_generated thenW_def formatMessage_def createTestsDir_snd)
  next
    case f: (Fulfilled d')
    then have ok: "existsSync e (testDirectory d) \<or> mkdir e (testDirectory d) = None" and d': "d' = d"
      by (auto simp: createTestsDir_fst split: if_splits option.splits)
    show ?thesis using Fulfilled f ok d'
      by (simp add: run_def stages_generated thenW_def createTestFiles_eq printMessage_def
          formatMessage_def createTestsDir_snd)
  qed
qed

lemma generated_cong:
  assumes "argv2 e2 = argv2 e1" and "pathParse e2 = pathParse e1"
    and "readFileSync e2 = readFileSync e1" and "parse e2 = parse e1" and "parseAll e2 = parseAll e1"
  shows "generated e2 = generated e1"
proof -
  have 1: "getFileAndComponentName e2 = getFileAndComponentName e1"
    using assms by (simp add: getFileAndComponentName_def split: option.splits)
  have 2: "getComponentInfo e2 = getComponentInfo e1"
    using assms by (simp add: getComponentInfo_def fun_eq_iff split: sum.splits)
  show ?thesis by (simp add: generated_def 1 2)
qed

text \<open>
  The directory stage lets a second run through: \<open>createTestsDir\<close> resolves when the
  test directory exists, whatever \<open>fs.mkdir\<close> then reports, so a run that starts after
  one that wrote its files writes the same two files again.
\<close>

lemma second_run_same_files:
  assumes "argv2 e2 = argv2 e1" and "pathParse e2 = pathParse e1"
    and "readFileSync e2 = readFileSync e1" and "parse e2 = parse e1" and "parseAll e2 = parseAll e1"
    and "files (run e1 w1) = files w1 @ out" and "out \<noteq> []"
    and "\<forall>p. existsSync e2 p"
  shows "files (run e2 w2) = files w2 @ out"
proof -
  have g: "generated e2 = generated e1"
    using assms(1-5) by (rule generated_cong)
  from assms(6,7) obtain d where d: "generated e1 = Fulfilled d" and out: "out = written d"
    by (auto simp: run_files split: promise.splits if_splits)
  show ?thesis using assms(8) by (simp add: run_files g d out)
qed

lemma example_componentName: "camelCase (upperFirst ''user_card'') = ''UserCard''"
  by code_simp

lemma example_named:
  "getFileAndComponentName exampleEnv = Fulfilled (exampleData\<lparr>component := None\<rparr>)"
  by (simp add: getFileAndComponentName_def exampleEnv_def exampleData_def example_componentName)

lemma example_parsed:
  "getComponentInfo exampleEnv (exampleData\<lparr>component := None\<rparr>) = Fulfilled exampleData"
  by (simp add: getComponentInfo_def exampleEnv_def exampleData_def resolve_def)

lemma generateTestContent_Fulfilled: "\<exists>d'. generateTestContent d = Fulfilled d'"
  by (simp add: generateTestContent_def Let_def)

lemma example_generated: "\<exists>d. generated exampleEnv = Fulfilled d"
proof -
  from example_emitted obtain d2 where "generateTestCasesContent exampleClassified = Fulfilled d2"
    by blast
  moreover obtain d3 where "generateTestContent d2 = Fulfilled d3"
    using generateTestContent_Fulfilled by blast
  ultimately show ?thesis
    by (simp add: generated_def bindP_def example_named example_parsed example_classified)
qed

lemma example_second_run:
  "files (run exampleEnv emptyWorld) \<noteq> []
   \<and> files (run secondRunEnv (run exampleEnv emptyWorld))
       = files (run exampleEnv emptyWorld) @ files (run exampleEnv emptyWorld)"
proof -
  from example_generated obtain d where d: "generated exampleEnv = Fulfilled d"
    by blast
  have ne: "files (run exampleEnv emptyWorld) \<noteq> []"
    by (simp add: run_files d written_def) (simp add: exampleEnv_def)
  have f: "files (run exampleEnv emptyWorld) = files emptyWorld @ files (run exampleEnv emptyWorld)"
    by (simp add: emptyWorld_def)
  have "files (run secondRunEnv (run exampleEnv emptyWorld))
       = files (run exampleEnv emptyWorld) @ files (run exampleEnv emptyWorld)"
    by (rule second_run_same_files[OF _ _ _ _ _ f ne]) (simp_all add: secondRunEnv_def)
  with ne show ?thesis by simp
qed

section \<open>Ambiguous component definitions\<close>

lemma ambiguous_rejected:
  assumes "argv2 e = Some fp" and "fp \<noteq> []" and "readFileSync e fp = Inr src"
    and "parse e src = Inl err" and "parseAll e src = Inr res" and "2 \<le> length res"
  shows "generated e = Rejected (Reason multipleDefinitions)"
proof -
  obtain d0 where d0: "getFileAndComponentName e = Fulfilled d0" and fp: "componentFilePath d0 = fp"
    using assms(1,2) by (simp add: getFileAndComponentName_def Let_def)
  have "getComponentInfo e d0 = Rejected (Reason multipleDefinitions)"
    using assms(3-6) fp by (simp add: getComponentInfo_def Let_def resolve_def reject_def)
  then show ?thesis by (simp add: generated_def bindP_def d0)
qed

text \<open>
  C3: when the file is read, the parse without a resolver fails and the parse with the
  resolver finds two or more definitions, the run only prints the message about more
  than one component definition: no directory is created and no file is written. The
  \<open>resolve\<close> that follows the \<open>reject\<close> leaves the promise rejected.
\<close>

theorem C3_ambiguous_component:
  assumes "argv2 e = Some fp" and "fp \<noteq> []" and "readFileSync e fp = Inr src"
    and "parse e src = Inl err" and "parseAll e src = Inr res" and "2 \<le> length res"
  shows "run e w = w\<lparr>console := console w @
            [[newline] @ ''Found more than one component definitions, could not automatically generate tests.''
               @ [newline]]\<rparr>
     \<and> files (run e w) = files w \<and> dirs (run e w) = dirs w"
  using run_rejected[OF ambiguous_rejected[OF assms], of w]
  by (simp add: multipleDefinitions_def)

theorem C3_ambiguous_component_witness:
  "run ambiguousEnv emptyWorld =
     \<lparr>dirs = [], files = [],
      console = [[newline] @ ''Found more than one component definitions, could not automatically generate tests.''
                   @ [newline]]\<rparr>"
proof -
  have "run ambiguousEnv emptyWorld = emptyWorld\<lparr>console := console emptyWorld @
            [[newline] @ ''Found more than one component definitions, could not automatically generate tests.''
               @ [newline]]\<rparr>
     \<and> files (run ambiguousEnv emptyWorld) = files emptyWorld
     \<and> dirs (run ambiguousEnv emptyWorld) = dirs emptyWorld"
    by (rule C3_ambiguous_component[of ambiguousEnv "''components/user_card.js''"
          "''export const UserCard = (props: Props) => null;''"
          "External ''Multiple exported component definitions found.''"
          "[\<lparr>props = Some exampleProps\<rparr>, \<lparr>props = None\<rparr>]"])
       (simp_all add: ambiguousEnv_def exampleEnv_def)
  then show ?thesis by (simp add: emptyWorld_def)
qed

section \<open>The end of the emitted text\<close>

lemma join_snoc_empty: "xs \<noteq> [] \<Longrightarrow> join sep (xs @ [[]]) = join sep xs @ sep"
  by (induction sep xs rule: join.induct) simp_all

lemma pushTest_eq: "pushTest l d = d\<lparr>testContent := testContent d @ [l]\<rparr>"
  by (simp add: pushTest_def)

lemma pushTest_update: "pushTest l (d\<lparr>testContent := xs\<rparr>) = d\<lparr>testContent := xs @ [l]\<rparr>"
  by (simp add: pushTest_def)

lemma testCaseFormatted_update:
  "testCaseFormatted n inm (d\<lparr>testContent := xs\<rparr>) = d\<lparr>testContent := xs @ testCaseLines n inm\<rparr>"
  unfolding testCaseFormatted_def Let_def
  by (simp add: pushTest_update testCaseLines_def)

lemma testCaseFormatted_eq:
  "testCaseFormatted n inm d = d\<lparr>testContent := testContent d @ testCaseLines n inm\<rparr>"
  using testCaseFormatted_update[where d = d and xs = "testContent d"] by simp

lemma fold_testCaseFormatted:
  "fold (testCaseFormatted n) xs d = d\<lparr>testContent := testContent d @ concat (map (testCaseLines n) xs)\<rparr>"
proof (induction xs arbitrary: d)
  case Nil
  show ?case by simp
next
  case (Cons x xs)
  have "fold (testCaseFormatted n) (x # xs) d = fold (testCaseFormatted n) xs (testCaseFormatted n x d)"
    by simp
  also have "\<dots> = (testCaseFormatted n x d)\<lparr>testContent :=
      testContent (testCaseFormatted n x d) @ concat (map (testCaseLines n) xs)\<rparr>"
    by (rule Cons.IH)
  also have "\<dots> = d\<lparr>testContent := testContent d @ concat (map (testCaseLines n) (x # xs))\<rparr>"
    by (simp add: testCaseFormatted_eq)
  finally show ?case .
qed

lemma generateTestContent_eq:
  "generateTestContent d =
     Fulfilled (d\<lparr>testContent :=
       (testHeaderLines d
        @ concat (map (testCaseLines (Suc (length (optionalProps d))))
                    (enumerate 0 (''base'' # map name (optionalProps d)))))
       @ [''});'', '''']\<rparr>)"
  unfolding generateTestContent_def Let_def
  by (simp add: fold_testCaseFormatted testCaseFormatted_update pushTest_update testHeaderLines_def)

lemma emitted_test:
  assumes "generateTestContent d = Fulfilled d'"
  shows "testCasesContent d' = testCasesContent d \<and> testCasesFile d' = testCasesFile d
     \<and> testFile d' = testFile d
     \<and> (\<exists>xs. xs \<noteq> [] \<and> testContent d' = xs @ [[]])"
proof -
  let ?body = "testHeaderLines d
      @ concat (map (testCaseLines (Suc (length (optionalProps d))))
                  (enumerate 0 (''base'' # map name (optionalProps d))))"
  have d': "d' = d\<lparr>testContent := ?body @ [''});'', '''']\<rparr>"
    using assms unfolding generateTestContent_eq by simp
  have "testContent d' = (?body @ [''});'']) @ [[]]"
    by (simp add: d')
  moreover have "?body @ [''});''] \<noteq> []"
    by simp
  ultimately have "\<exists>xs. xs \<noteq> [] \<and> testContent d' = xs @ [[]]"
    by blast
  then show ?thesis by (simp add: d')
qed

lemma ends_empty:
  assumes "last xs = []" and "1 < length xs"
  shows "\<exists>zs. zs \<noteq> [] \<and> xs = zs @ [[]]"
proof -
  have "xs \<noteq> []" using assms(2) by auto
  then have "xs = butlast xs @ [[]]"
    using assms(1) append_butlast_last_id[of xs] by simp
  moreover have "butlast xs \<noteq> []"
  proof
    assume "butlast xs = []"
    then have "length (butlast xs) = 0" by (simp only: list.size)
    then show False using assms(2) by simp
  qed
  ultimately show ?thesis by blast
qed

lemma optionalBlock_last: "optionalBlock cn wr rs q \<noteq> [] \<and> last (optionalBlock cn wr rs q) = []"
  by (simp add: optionalBlock_def)

lemma baseBlock_last: "baseBlock d c rs \<noteq> [] \<and> last (baseBlock d c rs) = []"
  by (simp add: baseBlock_def)

lemma fixture_ends_empty:
  assumes "generateTestCasesContent d = Fulfilled d'"
  shows "\<exists>xs. xs \<noteq> [] \<and> testCasesContent d' = xs @ [[]]"
proof -
  from emitted_fixture[OF assms] obtain c where
    tc: "testCasesContent d' =
         importLines d @ baseBlock d c (requiredProps d')
         @ concat (map (optionalBlock (componentName d) (wrappedSuffix d) (requiredProps d'))
                     (optionalProps d'))"
    by blast
  let ?f = "optionalBlock (componentName d) (wrappedSuffix d) (requiredProps d')"
  let ?b = "baseBlock d c (requiredProps d')"
  have l: "last (?b @ concat (map ?f (optionalProps d'))) = []"
  proof (cases "optionalProps d'" rule: rev_cases)
    case Nil
    then show ?thesis using baseBlock_last[of d c "requiredProps d'"] by simp
  next
    case (snoc qs q)
    have "last ((?b @ concat (map ?f qs)) @ ?f q) = last (?f q)"
      using optionalBlock_last[of "componentName d" "wrappedSuffix d" "requiredProps d'" q]
      by (intro last_appendR) simp
    then show ?thesis
      using snoc optionalBlock_last[of "componentName d" "wrappedSuffix d" "requiredProps d'" q]
      by simp
  qed
  have "?b @ concat (map ?f (optionalProps d')) \<noteq> []"
    using baseBlock_last[of d c "requiredProps d'"] by simp
  then have "last (importLines d @ (?b @ concat (map ?f (optionalProps d'))))
      = last (?b @ concat (map ?f (optionalProps d')))"
    by (rule last_appendR)
  then have "last (testCasesContent d') = []"
    using l by (simp only: tc)
  moreover have "1 < length (testCasesContent d')"
    unfolding tc by (simp add: importLines_def)
  ultimately show ?thesis by (rule ends_empty)
qed

lemma bindP_Fulfilled: "bindP p f = Fulfilled y \<Longrightarrow> \<exists>x. p = Fulfilled x \<and> f x = Fulfilled y"
  by (cases p) (simp_all add: bindP_def)

lemma generated_ends_empty:
  assumes "generated e = Fulfilled d"
  shows "(\<exists>xs. xs \<noteq> [] \<and> testCasesContent d = xs @ [[]])
     \<and> (\<exists>xs. xs \<noteq> [] \<and> testContent d = xs @ [[]])"
proof -
  from assms obtain d3 where 2: "generateTestContent d3 = Fulfilled d"
    and "bindP (bindP (bindP (getFileAndComponentName e) (getComponentInfo e)) getPropDefaults)
           generateTestCasesContent = Fulfilled d3"
    unfolding generated_def by (auto dest: bindP_Fulfilled)
  then obtain d2 where 1: "generateTestCasesContent d2 = Fulfilled d3"
    by (auto dest: bindP_Fulfilled)
  from fixture_ends_empty[OF 1] emitted_test[OF 2] show ?thesis by simp
qed

lemma stages_Fulfilled:
  assumes "fst (stages e w) = Fulfilled d"
  shows "generated e = Fulfilled d
     \<and> (existsSync e (testDirectory d) \<or> mkdir e (testDirectory d) = None)"
proof -
  from assms obtain d0 where g: "generated e = Fulfilled d0"
    by (cases "generated e") (simp_all add: stages_generated thenW_def)
  from assms g have c: "fst (createTestsDir e d0 w) = Fulfilled d0"
    by (cases "fst (createTestsDir e d0 w)")
       (auto simp: stages_generated thenW_def createTestsDir_fst split: if_splits option.splits)
  with assms g have "d = d0"
    by (simp add: stages_generated thenW_def createTestFiles_eq)
  with g c show ?thesis
    by (auto simp: createTestsDir_fst split: if_splits option.splits)
qed

text \<open>
  C10: when every stage of a run is fulfilled, the last line of the fixture module and
  the last line of the test module are empty, the run writes the two line sequences
  joined by line feeds, and each written text ends with a line feed.
\<close>

theorem C10_trailing_newline:
  assumes "fst (stages e w) = Fulfilled d"
  shows "last (testCasesContent d) = [] \<and> last (testContent d) = []
     \<and> files (run e w) = files w @
          [(testCasesFile d, join [newline] (testCasesContent d)),
           (testFile d, join [newline] (testContent d))]
     \<and> (\<exists>t. join [newline] (testCasesContent d) = t @ [newline])
     \<and> (\<exists>t. join [newline] (testContent d) = t @ [newline])"
proof -
  from stages_Fulfilled[OF assms] have g: "generated e = Fulfilled d"
    and ok: "existsSync e (testDirectory d) \<or> mkdir e (testDirectory d) = None"
    by simp_all
  from generated_ends_empty[OF g] obtain xs ys where xs: "xs \<noteq> []" "testCasesContent d = xs @ [[]]"
    and ys: "ys \<noteq> []" "testContent d = ys @ [[]]"
    by blast
  have "files (run e w) = files w @ written d"
    using ok by (simp add: run_files g)
  moreover have "join [newline] (testCasesContent d) = join [newline] xs @ [newline]"
    using xs by (simp add: join_snoc_empty)
  moreover have "join [newline] (testContent d) = join [newline] ys @ [newline]"
    using ys by (simp add: join_snoc_empty)
  ultimately show ?thesis using xs ys by (simp add: written_def)
qed

theorem C10_trailing_newline_witness:
  "\<exists>d t1 t2. fst (stages exampleEnv emptyWorld) = Fulfilled d
     \<and> files (run exampleEnv emptyWorld) =
          [(testCasesFile d, t1 @ [newline]), (testFile d, t2 @ [newline])]"
proof -
  from example_generated obtain d where g: "generated exampleEnv = Fulfilled d"
    by blast
  have "mkdir exampleEnv (testDirectory d) = None"
    by (simp add: exampleEnv_def)
  then have c: "fst (createTestsDir exampleEnv d emptyWorld) = Fulfilled d"
    by (simp add: createTestsDir_fst)
  have s: "fst (stages exampleEnv emptyWorld) = Fulfilled d"
    by (simp add: stages_generated thenW_def g c createTestFiles_eq)
  from C10_trailing_newline[OF s] obtain t1 t2 where
    "files (run exampleEnv emptyWorld) = files emptyWorld @
          [(testCasesFile d, t1 @ [newline]), (testFile d, t2 @ [newline])]"
    by auto
  then have "files (run exampleEnv emptyWorld) =
          [(testCasesFile d, t1 @ [newline]), (testFile d, t2 @ [newline])]"
    by (simp add: emptyWorld_def)
  with s show ?thesis by blast
qed

section \<open>What the emitted text depends on\<close>

lemma emitted_eq:
  assumes "component d = Some c"
    and "classifyAll (case props c of None \<Rightarrow> [] | Some ps \<Rightarrow> ps) [] = Inr cs"
  shows "\<exists>r. emitted d = Fulfilled r
     \<and> testCasesContent r =
         importLines d @ baseBlock d c (filter isRequired cs)
         @ concat (map (optionalBlock (componentName d) (wrappedSuffix d) (filter isRequired cs))
                     (filter (\<lambda>p. \<not> isRequired p) cs))
     \<and> testContent r =
         (testHeaderLines d
          @ concat (map (testCaseLines (Suc (length (filter (\<lambda>p. \<not> isRequired p) cs))))
                      (enumerate 0 (''base'' # map name (filter (\<lambda>p. \<not> isRequired p) cs)))))
         @ [''});'', '''']"
proof -
  have 1: "getPropDefaults d = Fulfilled (d\<lparr>classifiedProps := cs\<rparr>)"
    using assms by (simp add: getPropDefaults_def)
  have c': "component (d\<lparr>classifiedProps := cs\<rparr>) = Some c"
    using assms(1) by simp
  show ?thesis
    unfolding emitted_def
    by (simp add: bindP_def 1 generateTestCasesContent_eq[OF c'] generateTestContent_eq
        importLines_def baseBlock_def wrappedSuffix_def testHeaderLines_def)
qed

lemma emitted_classified:
  assumes "emitted d = Fulfilled r"
  shows "\<exists>c cs. component d = Some c
     \<and> classifyAll (case props c of None \<Rightarrow> [] | Some ps \<Rightarrow> ps) [] = Inr cs"
proof -
  from assms obtain x where "getPropDefaults d = Fulfilled x"
    unfolding emitted_def by (auto dest!: bindP_Fulfilled)
  then show ?thesis
    by (auto simp: getPropDefaults_def split: option.splits sum.splits)
qed

lemma generated_emitted:
  "generated e = bindP (bindP (getFileAndComponentName e) (getComponentInfo e)) emitted"
  by (simp add: generated_def emitted_def bindP_def split: promise.splits)

text \<open>
  C9: the text of both modules is a function of the parsed schema and of the path
  metadata alone. Two runs on the same input reach the classifier with records that
  agree on the component, the wrapped mark, the component name, the file name and the
  test directory; whatever else the two records hold (earlier classifications, lines
  already in the two line arrays, other paths), when the stages succeed on one record
  they succeed on the other, with the same lines and so the same text for both modules.
\<close>

theorem C9_text_from_schema_and_paths:
  assumes "component d2 = component d1" and "wrapped d2 = wrapped d1"
    and "componentName d2 = componentName d1"
    and "componentFilePathName d2 = componentFilePathName d1"
    and "testDirectory d2 = testDirectory d1"
    and "emitted d1 = Fulfilled r1"
  shows "\<exists>r2. emitted d2 = Fulfilled r2
     \<and> testCasesContent r2 = testCasesContent r1 \<and> testContent r2 = testContent r1
     \<and> join [newline] (testCasesContent r2) = join [newline] (testCasesContent r1)
     \<and> join [newline] (testContent r2) = join [newline] (testContent r1)"
proof -
  from emitted_classified[OF assms(6)] obtain c cs where c1: "component d1 = Some c"
    and cs: "classifyAll (case props c of None \<Rightarrow> [] | Some ps \<Rightarrow> ps) [] = Inr cs"
    by blast
  have c2: "component d2 = Some c"
    using assms(1) c1 by simp
  have i: "importLines d2 = importLines d1"
    by (simp add: importLines_def assms)
  have b: "baseBlock d2 = baseBlock d1"
    by (simp add: fun_eq_iff baseBlock_def wrappedSuffix_def assms)
  have w: "wrappedSuffix d2 = wrappedSuffix d1"
    by (simp add: wrappedSuffix_def assms)
  have h: "testHeaderLines d2 = testHeaderLines d1"
    by (simp add: testHeaderLines_def assms)
  from emitted_eq[OF c1 cs] assms(6) have
    t1: "testCasesContent r1 =
         importLines d1 @ baseBlock d1 c (filter isRequired cs)
         @ concat (map (optionalBlock (componentName d1) (wrappedSuffix d1) (filter isRequired cs))
                     (filter (\<lambda>p. \<not> isRequired p) cs))"
    and u1: "testContent r1 =
         (testHeaderLines d1
          @ concat (map (testCaseLines (Suc (length (filter (\<lambda>p. \<not> isRequired p) cs))))
                      (enumerate 0 (''base'' # map name (filter (\<lambda>p. \<not> isRequired p) cs)))))
         @ [''});'', '''']"
    by auto
  from emitted_eq[OF c2 cs] obtain r2 where r2: "emitted d2 = Fulfilled r2"
    and t2: "testCasesContent r2 =
         importLines d2 @ baseBlock d2 c (filter isRequired cs)
         @ concat (map (optionalBlock (componentName d2) (wrappedSuffix d2) (filter isRequired cs))
                     (filter (\<lambda>p. \<not> isRequired p) cs))"
    and u2: "testContent r2 =
         (testHeaderLines d2
          @ concat (map (testCaseLines (Suc (length (filter (\<lambda>p. \<not> isRequired p) cs))))
                      (enumerate 0 (''base'' # map name (filter (\<lambda>p. \<not> isRequired p) cs)))))
         @ [''});'', '''']"
    by blast
  have "testCasesContent r2 = testCasesContent r1"
    by (simp only: t1 t2 i b w assms(3))
  moreover have "testContent r2 = testContent r1"
    by (simp only: u1 u2 h)
  ultimately show ?thesis using r2 by simp
qed

lemma example_emitted_all: "\<exists>r. emitted exampleData = Fulfilled r"
proof -
  from example_emitted obtain d2 where "generateTestCasesContent exampleClassified = Fulfilled d2"
    by blast
  moreover obtain d3 where "generateTestContent d2 = Fulfilled d3"
    using generateTestContent_Fulfilled by blast
  ultimately show ?thesis
    by (simp add: emitted_def bindP_def example_classified)
qed

theorem C9_text_from_schema_and_paths_witness:
  "\<exists>r1 r2. emitted exampleData = Fulfilled r1 \<and> emitted staleData = Fulfilled r2
     \<and> testCasesContent staleData \<noteq> testCasesContent exampleData
     \<and> testContent staleData \<noteq> testContent exampleData
     \<and> testCasesContent r2 = testCasesContent r1 \<and> testContent r2 = testContent r1"
proof -
  from example_emitted_all obtain r1 where r1: "emitted exampleData = Fulfilled r1"
    by blast
  have "\<exists>r2. emitted staleData = Fulfilled r2
     \<and> testCasesContent r2 = testCasesContent r1 \<and> testContent r2 = testContent r1
     \<and> join [newline] (testCasesContent r2) = join [newline] (testCasesContent r1)
     \<and> join [newline] (testContent r2) = join [newline] (testContent r1)"
    by (rule C9_text_from_schema_and_paths[OF _ _ _ _ _ r1]) (simp_all add: staleData_def)
  then obtain r2 where "emitted staleData = Fulfilled r2"
    and "testCasesContent r2 = testCasesContent r1" and "testContent r2 = testContent r1"
    by blast
  moreover have "testCasesContent staleData \<noteq> testCasesContent exampleData"
    and "testContent staleData \<noteq> testContent exampleData"
    by (simp_all add: staleData_def exampleData_def)
  ultimately show ?thesis using r1 by blast
qed

section \<open>A required property with a diagnostic\<close>


end
